theory Spec2Isabelle
  imports Complex_Main "HOL-Library.Word" "HOL-Library.AList" "HOL-Library.Log_Nat"
    "HOL-Library.Sublist"
begin

unbundle bit_operations_syntax

section \<open>Python values\<close>

text \<open>
  The handlers of \<^verbatim>\<open>main.py\<close> work on untyped dictionaries, so the embedding is
  dynamically typed too: a document value is a \<open>pyval\<close>, a dictionary is an association
  list in insertion order, and every exception the source can raise is a value of
  \<open>error\<close>.

  Strings are \<open>string\<close>, read as UTF-8 bytes. A float is a \<open>binary64\<close>: a rational, one
  of the two infinities (\<open>Infinity True\<close> is the negative one) or NaN, the values a JSON
  body and a stored double can hold. The two zeros are one value. The arithmetic on
  finite values rounds to nearest, ties to even, with 53 significant bits (\<open>rnd\<close>); the
  exponent range is not bounded, so that a finite operation gives a finite result, as
  the operations of \<open>score\<close> do on binary64 numbers.
\<close>

datatype binary64 = Finite rat | Infinity bool | NaN

datatype ObjectId = ObjectId (binary: "96 word")

datatype pyval =
    PNone
  | PBool bool
  | PInt int
  | PFloat binary64
  | PStr string
  | PObjectId ObjectId
  | PList "pyval list"
  | PDict "(string \<times> pyval) list"

type_synonym doc = "(string \<times> pyval) list"

datatype error =
    HTTPException nat string
  | RequestValidationError
  | InvalidId
  | StoreUnavailable
  | OperationFailure
  | AttributeError
  | TypeError
  | ValueError

text \<open>
  Two builtins are taken as parameters: \<open>str\<close> on a value that is not an identifier
  (the repr of floats and containers), and \<open>float\<close> on a string (Python's numeric
  literal parser, \<open>None\<close> for its ValueError). The third field is the store's
  regular-expression engine, see \<open>compile_regex\<close>.
\<close>

record builtins =
  str_other :: "pyval \<Rightarrow> string"
  float_of_str :: "string \<Rightarrow> binary64 option"
  pcre_compile :: "string \<Rightarrow> (string \<Rightarrow> bool) option"

subsection \<open>Identifiers\<close>

definition hex_digit :: "nat \<Rightarrow> char" where
  "hex_digit n = (if n < 10 then char_of (48 + n) else char_of (87 + n))"

definition hex_value :: "char \<Rightarrow> nat option" where
  "hex_value c =
     (let n = (of_char c :: nat)
      in if 48 \<le> n \<and> n \<le> 57 then Some (n - 48)
         else if 97 \<le> n \<and> n \<le> 102 then Some (n - 87)
         else if 65 \<le> n \<and> n \<le> 70 then Some (n - 55)
         else None)"

text \<open>\<open>str(oid)\<close>: the twelve bytes as 24 lower-case hexadecimal digits.\<close>

definition oid_str :: "ObjectId \<Rightarrow> string" where
  "oid_str oid =
     map (\<lambda>i. hex_digit (unat (drop_bit (4 * i) (binary oid) AND 15))) (rev [0..<24])"

text \<open>
  \<open>ObjectId(s)\<close> for a string \<open>s\<close>, by the documented contract of the driver: a
  24-character hexadecimal string is accepted, anything else raises InvalidId.

  The constructor of the driver reads the 24 characters with \<open>bytes.fromhex\<close>, which skips
  blanks between pairs of digits. Such a string (\<open>lenient\<close>) gives an identifier of fewer
  than twelve bytes, and what a lookup does with it is not determined by the source. The
  model follows the contract; the statements below on identifiers are about strings that
  are well-formed (\<open>oid_is_valid\<close>) or that the constructor refuses (neither well-formed
  nor \<open>lenient\<close>).
\<close>

definition oid_is_valid :: "string \<Rightarrow> bool" where
  "oid_is_valid s = (length s = 24 \<and> list_all (\<lambda>c. hex_value c \<noteq> None) s)"

definition is_space :: "char \<Rightarrow> bool" where
  "is_space c = ((of_char c :: nat) \<in> {9, 10, 11, 12, 13, 32})"

fun fromhex_accepts :: "string \<Rightarrow> bool" where
  "fromhex_accepts [] = True"
| "fromhex_accepts [c] = is_space c"
| "fromhex_accepts (c # c' # cs) =
     (if is_space c then fromhex_accepts (c' # cs)
      else hex_value c \<noteq> None \<and> hex_value c' \<noteq> None \<and> fromhex_accepts cs)"

definition lenient :: "string \<Rightarrow> bool" where
  "lenient s = (length s = 24 \<and> fromhex_accepts s \<and> \<not> oid_is_valid s)"

definition ObjectId_of_str :: "string \<Rightarrow> error + ObjectId" where
  "ObjectId_of_str s =
     (if oid_is_valid s
      then Inr (ObjectId (foldl (\<lambda>w c. push_bit 4 w OR of_nat (the (hex_value c))) 0 s))
      else Inl InvalidId)"

subsection \<open>Builtins\<close>

definition py_str :: "builtins \<Rightarrow> pyval \<Rightarrow> string" where
  "py_str py v = (case v of PObjectId oid \<Rightarrow> oid_str oid | PStr s \<Rightarrow> s | _ \<Rightarrow> str_other py v)"

text \<open>Truthiness, as \<open>if v\<close> and \<open>not v\<close> test it.\<close>

definition truthy :: "pyval \<Rightarrow> bool" where
  "truthy v =
     (case v of
        PNone \<Rightarrow> False
      | PBool b \<Rightarrow> b
      | PInt n \<Rightarrow> n \<noteq> 0
      | PFloat r \<Rightarrow> r \<noteq> Finite 0
      | PStr s \<Rightarrow> s \<noteq> []
      | PObjectId _ \<Rightarrow> True
      | PList l \<Rightarrow> l \<noteq> []
      | PDict d \<Rightarrow> d \<noteq> [])"

definition upper_char :: "char \<Rightarrow> char" where
  "upper_char c =
     (let n = (of_char c :: nat) in if 97 \<le> n \<and> n \<le> 122 then char_of (n - 32) else c)"

text \<open>
  \<open>s.upper()\<close> on the ASCII letters. A code point outside ASCII (bytes from 128 on) is
  left as it is; no such code point has an upper-case form that is a key of the chip
  table, so the table lookup is the one Python does.
\<close>

definition upper :: "string \<Rightarrow> string" where
  "upper s = map upper_char s"

text \<open>\<open>len\<close> of a string counts code points: the bytes that are not UTF-8 continuations.\<close>

definition is_continuation :: "char \<Rightarrow> bool" where
  "is_continuation c = (128 \<le> (of_char c :: nat) \<and> (of_char c :: nat) < 192)"

definition py_len :: "pyval \<Rightarrow> error + nat" where
  "py_len v =
     (case v of
        PStr s \<Rightarrow> Inr (length (filter (\<lambda>c. \<not> is_continuation c) s))
      | PList l \<Rightarrow> Inr (length l)
      | PDict d \<Rightarrow> Inr (length d)
      | _ \<Rightarrow> Inl TypeError)"

subsection \<open>Binary64 arithmetic\<close>

definition pow2 :: "int \<Rightarrow> rat" where
  "pow2 e = (if 0 \<le> e then 2 ^ nat e else 1 / 2 ^ nat (- e))"

definition round_half_even :: "rat \<Rightarrow> int" where
  "round_half_even q =
     (let m = \<lfloor>q\<rfloor>; r = q - of_int m
      in if r < 1 / 2 then m else if 1 / 2 < r then m + 1 else if even m then m else m + 1)"

text \<open>The exponent of a positive rational: the \<open>e\<close> with \<open>2^e \<le> a < 2^(e+1)\<close>.\<close>

definition exponent :: "rat \<Rightarrow> int" where
  "exponent a =
     (let (p, q) = quotient_of a; e = bitlen p - bitlen q
      in if pow2 e \<le> a then e else e - 1)"

definition rnd :: "rat \<Rightarrow> rat" where
  "rnd x =
     (if x = 0 then 0
      else let u = pow2 (exponent \<bar>x\<bar> - 52) in of_int (round_half_even (x / u)) * u)"

text \<open>
  \<open>a + b\<close> and \<open>a * b\<close>: NaN when an operand is NaN, for the sum of the two different
  infinities and for the product of an infinity and zero.
\<close>

fun float_add :: "binary64 \<Rightarrow> binary64 \<Rightarrow> binary64" where
  "float_add (Finite a) (Finite b) = Finite (rnd (a + b))"
| "float_add (Finite a) (Infinity s) = Infinity s"
| "float_add (Infinity s) (Finite b) = Infinity s"
| "float_add (Infinity s) (Infinity t) = (if s = t then Infinity s else NaN)"
| "float_add NaN b = NaN"
| "float_add a NaN = NaN"

fun float_mul :: "binary64 \<Rightarrow> binary64 \<Rightarrow> binary64" where
  "float_mul (Finite a) (Finite b) = Finite (rnd (a * b))"
| "float_mul (Finite a) (Infinity s) = (if a = 0 then NaN else Infinity (s \<noteq> (a < 0)))"
| "float_mul (Infinity s) (Finite b) = (if b = 0 then NaN else Infinity (s \<noteq> (b < 0)))"
| "float_mul (Infinity s) (Infinity t) = Infinity (s \<noteq> t)"
| "float_mul NaN b = NaN"
| "float_mul a NaN = NaN"

text \<open>\<open>a >= b\<close>: false when an operand is NaN.\<close>

fun float_ge :: "binary64 \<Rightarrow> binary64 \<Rightarrow> bool" where
  "float_ge (Finite a) (Finite b) = (b \<le> a)"
| "float_ge (Finite a) (Infinity s) = s"
| "float_ge (Infinity s) (Finite b) = (\<not> s)"
| "float_ge (Infinity s) (Infinity t) = (if s then t else True)"
| "float_ge NaN b = False"
| "float_ge a NaN = False"


definition float_of_int :: "int \<Rightarrow> binary64" where
  "float_of_int n = Finite (rnd (of_int n))"

text \<open>A decimal literal of the source, such as \<open>0.2\<close>, is the nearest binary64 number.\<close>

definition float_lit :: "rat \<Rightarrow> binary64" where
  "float_lit r = Finite (rnd r)"

text \<open>\<open>float(v)\<close>.\<close>

definition py_float :: "builtins \<Rightarrow> pyval \<Rightarrow> error + binary64" where
  "py_float py v =
     (case v of
        PFloat r \<Rightarrow> Inr r
      | PInt n \<Rightarrow> Inr (float_of_int n)
      | PBool b \<Rightarrow> Inr (Finite (if b then 1 else 0))
      | PStr s \<Rightarrow> (case float_of_str py s of None \<Rightarrow> Inl ValueError | Some r \<Rightarrow> Inr r)
      | _ \<Rightarrow> Inl TypeError)"

section \<open>Serialisation\<close>

text \<open>\<open>x.get(k, default)\<close> on a dictionary.\<close>

definition get :: "doc \<Rightarrow> string \<Rightarrow> pyval \<Rightarrow> pyval" where
  "get x k dflt = (case map_of x k of None \<Rightarrow> dflt | Some v \<Rightarrow> v)"

definition stringify :: "pyval \<Rightarrow> pyval" where
  "stringify v = (case v of PObjectId oid \<Rightarrow> PStr (oid_str oid) | _ \<Rightarrow> v)"

text \<open>
  \<open>serialize_doc\<close>: an empty document is returned as it is; otherwise \<open>_id\<close> is popped
  and its string stored under \<open>id\<close> (in place when the key exists, at the end
  otherwise), and then every value that is an identifier is replaced by its string.
\<close>

definition serialize_doc :: "builtins \<Rightarrow> doc \<Rightarrow> doc" where
  "serialize_doc py doc =
     (if doc = [] then doc
      else
        let d = (case map_of doc ''_id'' of
                   Some v \<Rightarrow> AList.update ''id'' (PStr (py_str py v)) (AList.delete ''_id'' doc)
                 | None \<Rightarrow> doc)
        in map (\<lambda>(k, v). (k, stringify v)) d)"

section \<open>Scoring\<close>

definition chip_score :: "string \<Rightarrow> rat option" where
  "chip_score =
     map_of [(''M4'', 5), (''M3'', 9 / 2), (''M2'', 4), (''M1'', 7 / 2), (''A15'', 3),
             (''A14'', 5 / 2)]"

text \<open>
  \<open>score\<close>, the local function of the compare handler. \<open>base\<close> starts as the integer 0 and
  becomes a float with the second addition at the latest; every tier is a binary64
  number, so the first addition is exact.
\<close>

definition score :: "builtins \<Rightarrow> doc \<Rightarrow> error + binary64" where
  "score py x =
     (case get x ''chip'' (PStr []) of
        PStr c \<Rightarrow>
          (let base = Finite (case chip_score (upper c) of None \<Rightarrow> 2 | Some t \<Rightarrow> t)
           in case py_float py (get x ''display_size'' (PInt 0)) of
                Inl e \<Rightarrow> Inl e
              | Inr ds \<Rightarrow>
                  (let base = float_add base (float_mul ds (float_lit (2 / 10)));
                       base = float_add base
                                (float_mul (float_of_int (if truthy (get x ''cellular'' PNone) then 1 else 0))
                                   (float_lit (3 / 10)))
                   in case py_len (get x ''storage_options'' (PList [])) of
                        Inl e \<Rightarrow> Inl e
                      | Inr n \<Rightarrow> Inr (float_add base (float_mul (float_of_int (int n)) (float_lit (1 / 10))))))
      | _ \<Rightarrow> Inl AttributeError)"

section \<open>The storage gateway\<close>

text \<open>
  Modelled from the spec: the store handle \<open>db\<close>, \<open>get_documents\<close> and
  \<open>create_document\<close> of \<^verbatim>\<open>database.py\<close>, the record class \<open>IPad\<close> of
  \<^verbatim>\<open>schemas.py\<close>, and the driver calls \<open>find_one\<close> and \<open>count_documents\<close>. None of them
  is part of \<^verbatim>\<open>main.py\<close>. The store is the one collection the handlers use, in
  insertion order. When the connection is unavailable every operation signals
  \<open>StoreUnavailable\<close>. A filter maps a field to an equality constraint or to a
  document of operators: a range (\<open>$gte\<close>, \<open>$lte\<close>) on numbers or a case-insensitive
  regular expression (\<open>$regex\<close> with \<open>$options: i\<close>) on strings. In a range a NaN is
  equal to NaN and compares with no other number. Fields hold scalars; the store's
  matching of array fields is not modelled.
\<close>

record database =
  alive :: bool
  ipad :: "doc list"
  next_id :: "96 word"

record IPad =
  name :: string
  generation :: string
  chip :: string
  display_size :: binary64
  storage_options :: "int list"
  base_price :: binary64
  colors :: "string list"
  supports_pencil :: string
  cellular :: bool
  image_url :: string

definition model_dump :: "IPad \<Rightarrow> doc" where
  "model_dump m =
     [(''name'', PStr (name m)),
      (''generation'', PStr (generation m)),
      (''chip'', PStr (chip m)),
      (''display_size'', PFloat (display_size m)),
      (''storage_options'', PList (map PInt (storage_options m))),
      (''base_price'', PFloat (base_price m)),
      (''colors'', PList (map PStr (colors m))),
      (''supports_pencil'', PStr (supports_pencil m)),
      (''cellular'', PBool (cellular m)),
      (''image_url'', PStr (image_url m))]"

definition find_one :: "database \<Rightarrow> ObjectId \<Rightarrow> error + doc option" where
  "find_one d oid =
     (if \<not> alive d then Inl StoreUnavailable
      else Inr (List.find (\<lambda>x. map_of x ''_id'' = Some (PObjectId oid)) (ipad d)))"

definition count_documents :: "database \<Rightarrow> error + nat" where
  "count_documents d = (if \<not> alive d then Inl StoreUnavailable else Inr (length (ipad d)))"

definition create_document :: "database \<Rightarrow> IPad \<Rightarrow> (error + string) \<times> database" where
  "create_document d item =
     (if \<not> alive d then (Inl StoreUnavailable, d)
      else
        let oid = ObjectId (next_id d)
        in (Inr (oid_str oid),
            d\<lparr>ipad := ipad d @ [(''_id'', PObjectId oid) # model_dump item],
              next_id := next_id d + 1\<rparr>))"

subsection \<open>Regular expressions\<close>

text \<open>
  The characters with a meaning of their own in a pattern. A pattern made of other
  characters and of dots is matched here; for any other pattern the engine is the
  parameter \<open>pcre_compile\<close>, which gives \<open>None\<close> for a pattern that does not compile and
  the case-insensitive search otherwise.
\<close>

definition is_meta :: "char \<Rightarrow> bool" where
  "is_meta c = (c \<in> set (CHR 0x5C # ''^$.|?*+()[]{}''))"

text \<open>
  Matching at the start of the subject: a dot takes one code point other than a line
  feed, any other character takes itself in either letter case.
\<close>

fun match_here :: "string \<Rightarrow> string \<Rightarrow> bool" where
  "match_here [] s = True"
| "match_here (p # ps) [] = False"
| "match_here (p # ps) (c # cs) =
     (if p = CHR ''.''
      then c \<noteq> CHR 0x0A \<and> \<not> is_continuation c \<and> match_here ps (dropWhile is_continuation cs)
      else upper_char p = upper_char c \<and> match_here ps cs)"

fun search :: "string \<Rightarrow> string \<Rightarrow> bool" where
  "search p [] = match_here p []"
| "search p (c # cs) = (match_here p (c # cs) \<or> search p cs)"

definition compile_regex :: "builtins \<Rightarrow> string \<Rightarrow> (string \<Rightarrow> bool) option" where
  "compile_regex py pat =
     (if list_all (\<lambda>c. \<not> is_meta c \<or> c = CHR ''.'') pat then Some (search pat)
      else pcre_compile py pat)"

subsection \<open>Filters\<close>

definition num_of :: "pyval \<Rightarrow> binary64 option" where
  "num_of v = (case v of PInt n \<Rightarrow> Some (Finite (of_int n)) | PFloat r \<Rightarrow> Some r | _ \<Rightarrow> None)"

definition field_num :: "pyval option \<Rightarrow> binary64 option" where
  "field_num fv = (case fv of None \<Rightarrow> None | Some v \<Rightarrow> num_of v)"

text \<open>The store's \<open>x >= b\<close> of a range.\<close>

definition range_ge :: "binary64 \<Rightarrow> binary64 \<Rightarrow> bool" where
  "range_ge x b = (if x = NaN then b = NaN else float_ge x b)"

text \<open>One operator of an operator document, as a predicate on the field's value.\<close>

definition compile_op :: "builtins \<Rightarrow> doc \<Rightarrow> string \<times> pyval \<Rightarrow> (pyval option \<Rightarrow> bool) option" where
  "compile_op py ops = (\<lambda>(k, arg).
     if k = ''$gte'' then
       (case num_of arg of
          None \<Rightarrow> None
        | Some b \<Rightarrow> Some (\<lambda>fv. case field_num fv of None \<Rightarrow> False | Some x \<Rightarrow> range_ge x b))
     else if k = ''$lte'' then
       (case num_of arg of
          None \<Rightarrow> None
        | Some b \<Rightarrow> Some (\<lambda>fv. case field_num fv of None \<Rightarrow> False | Some x \<Rightarrow> range_ge b x))
     else if k = ''$regex'' then
       (case arg of
          PStr pat \<Rightarrow>
            (if map_of ops ''$options'' = Some (PStr ''i'')
             then (case compile_regex py pat of
                     None \<Rightarrow> None
                   | Some m \<Rightarrow> Some (\<lambda>fv. case fv of Some (PStr s) \<Rightarrow> m s | _ \<Rightarrow> False))
             else None)
        | _ \<Rightarrow> None)
     else if k = ''$options'' then
       (if map_of ops ''$regex'' = None then None else Some (\<lambda>fv. True))
     else None)"

text \<open>A list of compiled predicates is their conjunction; one that fails to compile fails all.\<close>

fun conj_all :: "('a \<Rightarrow> bool) option list \<Rightarrow> ('a \<Rightarrow> bool) option" where
  "conj_all [] = Some (\<lambda>x. True)"
| "conj_all (None # ps) = None"
| "conj_all (Some P # ps) =
     (case conj_all ps of None \<Rightarrow> None | Some Q \<Rightarrow> Some (\<lambda>x. P x \<and> Q x))"

definition compile_cond :: "builtins \<Rightarrow> pyval \<Rightarrow> (pyval option \<Rightarrow> bool) option" where
  "compile_cond py cond =
     (case cond of
        PDict ops \<Rightarrow> conj_all (map (compile_op py ops) ops)
      | v \<Rightarrow> Some (\<lambda>fv. fv = Some v))"

definition compile_filter :: "builtins \<Rightarrow> doc \<Rightarrow> (doc \<Rightarrow> bool) option" where
  "compile_filter py flt =
     conj_all (map (\<lambda>(field, cond). map_option (\<lambda>P x. P (map_of x field)) (compile_cond py cond)) flt)"


section \<open>The handlers\<close>

subsection \<open>Listing\<close>

text \<open>
  The filter \<open>list_ipads\<close> builds. \<open>q\<close> and \<open>chip\<close> are tested by truthiness, the two
  bounds by \<open>is not None\<close>.
\<close>

definition rng :: "binary64 option \<Rightarrow> binary64 option \<Rightarrow> doc" where
  "rng min_display max_display =
     (let r = [];
          r = (case min_display of None \<Rightarrow> r | Some lo \<Rightarrow> AList.update ''$gte'' (PFloat lo) r);
          r = (case max_display of None \<Rightarrow> r | Some hi \<Rightarrow> AList.update ''$lte'' (PFloat hi) r)
      in r)"

definition filter_dict ::
  "string option \<Rightarrow> string option \<Rightarrow> binary64 option \<Rightarrow> binary64 option \<Rightarrow> doc" where
  "filter_dict q chip_param min_display max_display =
     (let f = [];
          f = (case q of
                 None \<Rightarrow> f
               | Some s \<Rightarrow>
                   if s \<noteq> []
                   then AList.update ''name'' (PDict [(''$regex'', PStr s), (''$options'', PStr ''i'')]) f
                   else f);
          f = (case chip_param of
                 None \<Rightarrow> f
               | Some c \<Rightarrow> if c \<noteq> [] then AList.update ''chip'' (PStr c) f else f);
          f = (if min_display \<noteq> None \<or> max_display \<noteq> None
               then AList.update ''display_size'' (PDict (rng min_display max_display)) f
               else f)
      in f)"

text \<open>
  The declaration \<open>Query(None, ge=0)\<close>: the framework rejects a bound \<open>v\<close> unless
  \<open>v >= 0\<close>, so a negative bound and NaN are rejected.
\<close>

definition ge0 :: "binary64 option \<Rightarrow> bool" where
  "ge0 p = (case p of None \<Rightarrow> True | Some v \<Rightarrow> float_ge v (Finite 0))"


subsection \<open>Comparing\<close>

record CompareRequest =
  req_a :: string
  req_b :: string

record comparison =
  resp_a :: doc
  resp_b :: doc
  score_a :: binary64
  score_b :: binary64
  recommended :: string

text \<open>The \<open>try\<close> block: both identifiers are parsed and looked up, in this order.\<close>

definition fetch_both :: "database \<Rightarrow> CompareRequest \<Rightarrow> error + (doc option \<times> doc option)" where
  "fetch_both d payload =
     (case ObjectId_of_str (req_a payload) of
        Inl e \<Rightarrow> Inl e
      | Inr oa \<Rightarrow>
          (case find_one d oa of
             Inl e \<Rightarrow> Inl e
           | Inr a_doc \<Rightarrow>
               (case ObjectId_of_str (req_b payload) of
                  Inl e \<Rightarrow> Inl e
                | Inr ob \<Rightarrow>
                    (case find_one d ob of
                       Inl e \<Rightarrow> Inl e
                     | Inr b_doc \<Rightarrow> Inr (a_doc, b_doc)))))"

text \<open>\<open>not a_doc\<close> for the result of \<open>find_one\<close>: \<open>None\<close> or an empty document.\<close>

definition falsy_doc :: "doc option \<Rightarrow> bool" where
  "falsy_doc r = (case r of None \<Rightarrow> True | Some x \<Rightarrow> x = [])"

definition compare_ipads :: "builtins \<Rightarrow> database option \<Rightarrow> CompareRequest \<Rightarrow> error + comparison" where
  "compare_ipads py db payload =
     (case db of
        None \<Rightarrow> Inl (HTTPException 500 ''Database not configured'')
      | Some d \<Rightarrow>
          (case fetch_both d payload of
             Inl e \<Rightarrow> Inl (HTTPException 400 ''Invalid id format'')
           | Inr (a_doc, b_doc) \<Rightarrow>
               if falsy_doc a_doc \<or> falsy_doc b_doc
               then Inl (HTTPException 404 ''One or both models not found'')
               else
                 let a = serialize_doc py (the a_doc);
                     b = serialize_doc py (the b_doc)
                 in (case score py a of
                       Inl e \<Rightarrow> Inl e
                     | Inr a_score \<Rightarrow>
                         (case score py b of
                            Inl e \<Rightarrow> Inl e
                          | Inr b_score \<Rightarrow>
                              Inr \<lparr>resp_a = a, resp_b = b, score_a = a_score, score_b = b_score,
                                   recommended = (if float_ge a_score b_score then ''A'' else ''B'')\<rparr>))))"

subsection \<open>Creating and seeding\<close>

definition create_ipad :: "database option \<Rightarrow> IPad \<Rightarrow> (error + string) \<times> database option" where
  "create_ipad db model =
     (case db of
        None \<Rightarrow> (Inl (HTTPException 500 ''Database not configured''), db)
      | Some d \<Rightarrow> (case create_document d model of (r, d') \<Rightarrow> (r, Some d')))"

definition demo :: "IPad list" where
  "demo =
     [\<lparr>name = ''iPad Pro 11'', generation = ''M4 (2024)'', chip = ''M4'',
       display_size = Finite 11, storage_options = [256, 512, 1024], base_price = Finite 999,
       colors = [''Silver'', ''Space Black''], supports_pencil = ''Apple Pencil Pro'',
       cellular = True,
       image_url = ''https://store.storeimages.cdn-apple.com/4982/as-images.apple.com/is/ipad-pro-11-digitalmat-gallery-1-202404?wid=728&hei=666&fmt=png-alpha&.v=1712605559398''\<rparr>,
      \<lparr>name = ''iPad Air 13'', generation = ''M2 (2024)'', chip = ''M2'',
       display_size = Finite 13, storage_options = [128, 256, 512], base_price = Finite 799,
       colors = [''Blue'', ''Purple'', ''Starlight'', ''Space Gray''],
       supports_pencil = ''Apple Pencil Pro'', cellular = True,
       image_url = ''https://store.storeimages.cdn-apple.com/4982/as-images.apple.com/is/ipad-air-13-digitalmat-gallery-1-202405?wid=728&hei=666&fmt=png-alpha&.v=1713836176004''\<rparr>,
      \<lparr>name = ''iPad (10th gen)'', generation = ''A14 (2022)'', chip = ''A14'',
       display_size = float_lit (109 / 10), storage_options = [64, 256], base_price = Finite 349,
       colors = [''Blue'', ''Pink'', ''Yellow'', ''Silver''],
       supports_pencil = ''USB'' @ [CHR 0xE2, CHR 0x80, CHR 0x91] @ ''C Apple Pencil'',
       cellular = True,
       image_url = ''https://store.storeimages.cdn-apple.com/4982/as-images.apple.com/is/ipad-10th-gen-hero-blue-wifi-select?wid=540&hei=540&fmt=jpeg&qlt=90&.v=1664481087749''\<rparr>,
      \<lparr>name = ''iPad mini'', generation = ''A15 (2021)'', chip = ''A15'',
       display_size = float_lit (83 / 10), storage_options = [64, 256], base_price = Finite 499,
       colors = [''Space Gray'', ''Pink'', ''Purple'', ''Starlight''],
       supports_pencil = ''Apple Pencil (2nd gen)'', cellular = True,
       image_url = ''https://store.storeimages.cdn-apple.com/4982/as-images.apple.com/is/ipad-mini-select-202109_GEO_US?wid=540&hei=540&fmt=jpeg&qlt=90&.v=1631751068000''\<rparr>]"

record seed_response =
  inserted :: nat
  message :: "string option"

text \<open>The loop over \<open>demo\<close>; an exception of \<open>create_document\<close> ends it.\<close>

fun seed_loop :: "IPad list \<Rightarrow> nat \<Rightarrow> database \<Rightarrow> (error + nat) \<times> database" where
  "seed_loop [] n d = (Inr n, d)"
| "seed_loop (item # items) n d =
     (case create_document d item of
        (Inl e, d') \<Rightarrow> (Inl e, d')
      | (Inr _, d') \<Rightarrow> seed_loop items (n + 1) d')"

definition seed_ipads :: "database option \<Rightarrow> (error + seed_response) \<times> database option" where
  "seed_ipads db =
     (case db of
        None \<Rightarrow> (Inl (HTTPException 500 ''Database not configured''), db)
      | Some d \<Rightarrow>
          (case count_documents d of
             Inl e \<Rightarrow> (Inl e, db)
           | Inr count \<Rightarrow>
               if 0 < count
               then (Inr \<lparr>inserted = 0, message = Some ''Catalog already has data''\<rparr>, db)
               else
                 (case seed_loop demo 0 d of
                    (Inl e, d') \<Rightarrow> (Inl e, Some d')
                  | (Inr n, d') \<Rightarrow> (Inr \<lparr>inserted = n, message = None\<rparr>, Some d'))))"

section \<open>The specification's own notions\<close>

text \<open>
  The definitions of this section follow the words of the specification, not the code;
  the theorems below compare the two.
\<close>

text \<open>The chip tier table, looked up without regard to letter case, 2 for any other chip.\<close>

definition chip_tier_score :: "string \<Rightarrow> rat" where
  "chip_tier_score c =
     (let u = upper c
      in if u = ''M4'' then 5
         else if u = ''M3'' then 9 / 2
         else if u = ''M2'' then 4
         else if u = ''M1'' then 7 / 2
         else if u = ''A15'' then 3
         else if u = ''A14'' then 5 / 2
         else 2)"

definition chip_of :: "doc \<Rightarrow> string" where
  "chip_of x = (case get x ''chip'' (PStr []) of PStr c \<Rightarrow> c | _ \<Rightarrow> [])"

definition display_of :: "builtins \<Rightarrow> doc \<Rightarrow> binary64" where
  "display_of py x =
     (case py_float py (get x ''display_size'' (PInt 0)) of Inr ds \<Rightarrow> ds | Inl _ \<Rightarrow> Finite 0)"

definition count_of :: "doc \<Rightarrow> nat" where
  "count_of x = (case py_len (get x ''storage_options'' (PList [])) of Inr n \<Rightarrow> n | Inl _ \<Rightarrow> 0)"

text \<open>
  \<open>tier + display_size * 0.2 + (0.3 if cellular else 0) + 0.1 * count(storage_options)\<close>,
  in binary64 arithmetic, summed from the left.
\<close>

definition spec_score_with :: "rat \<Rightarrow> builtins \<Rightarrow> doc \<Rightarrow> binary64" where
  "spec_score_with tier py x =
     float_add
       (float_add
          (float_add (Finite tier) (float_mul (display_of py x) (float_lit (2 / 10))))
          (if truthy (get x ''cellular'' PNone) then float_lit (3 / 10) else Finite 0))
       (float_mul (float_lit (1 / 10)) (float_of_int (int (count_of x))))"

definition spec_score :: "builtins \<Rightarrow> doc \<Rightarrow> binary64" where
  "spec_score py x = spec_score_with (chip_tier_score (chip_of x)) py x"

text \<open>
  A record that can be scored: its chip, if it has one, is a string, \<open>float\<close> accepts its
  display size and its storage options have a length.
\<close>

definition scorable :: "builtins \<Rightarrow> doc \<Rightarrow> bool" where
  "scorable py x =
     ((case get x ''chip'' (PStr []) of PStr c \<Rightarrow> True | _ \<Rightarrow> False)
      \<and> (case py_float py (get x ''display_size'' (PInt 0)) of Inl e \<Rightarrow> False | Inr ds \<Rightarrow> True)
      \<and> (case py_len (get x ''storage_options'' (PList [])) of Inl e \<Rightarrow> False | Inr n \<Rightarrow> True))"

text \<open>The record \<open>x\<close> is the one the store holds under the identifier written \<open>s\<close>.\<close>

definition fetched :: "database \<Rightarrow> string \<Rightarrow> doc \<Rightarrow> bool" where
  "fetched d s x =
     (case ObjectId_of_str s of Inl e \<Rightarrow> False | Inr oid \<Rightarrow> find_one d oid = Inr (Some x))"

text \<open>Two characters that are equal or the two cases of one ASCII letter.\<close>

definition is_letter :: "char \<Rightarrow> bool" where
  "is_letter c =
     (let n = (of_char c :: nat) in (65 \<le> n \<and> n \<le> 90) \<or> (97 \<le> n \<and> n \<le> 122))"

definition case_variant :: "char \<Rightarrow> char \<Rightarrow> bool" where
  "case_variant a b =
     (a = b \<or> (is_letter a \<and> is_letter b
                \<and> ((of_char a :: nat) + 32 = of_char b \<or> (of_char b :: nat) + 32 = of_char a)))"

text \<open>Two strings that differ in letter case only.\<close>

definition same_up_to_case :: "string \<Rightarrow> string \<Rightarrow> bool" where
  "same_up_to_case s t = list_all2 case_variant s t"

text \<open>\<open>q\<close> occurs in the name of the record as a substring, letter case ignored.\<close>

definition name_contains :: "string \<Rightarrow> doc \<Rightarrow> bool" where
  "name_contains q x =
     (case map_of x ''name'' of Some (PStr s) \<Rightarrow> sublist (upper q) (upper s) | _ \<Rightarrow> False)"

text \<open>Whether a filter matches a document; \<open>None\<close> when the store rejects the filter.\<close>

definition doc_matches :: "builtins \<Rightarrow> doc \<Rightarrow> doc \<Rightarrow> bool option" where
  "doc_matches py flt x = map_option (\<lambda>P. P x) (compile_filter py flt)"

text \<open>
  Builtins for the concrete examples: \<open>str\<close> gives the empty string, \<open>float\<close> refuses
  every string and no pattern compiles. The examples do not reach them.
\<close>

definition no_builtins :: builtins where
  "no_builtins = \<lparr>str_other = (\<lambda>v. []), float_of_str = (\<lambda>s. None), pcre_compile = (\<lambda>p. None)\<rparr>"

subsection \<open>The example of the specification\<close>

text \<open>
  The two records of the specification's scoring example, stored with the identifiers 1
  and 2, and the request that compares them.
\<close>

definition example_a :: doc where
  "example_a =
     [(''_id'', PObjectId (ObjectId 1)), (''chip'', PStr ''M4''), (''display_size'', PInt 11),
      (''cellular'', PBool True), (''storage_options'', PList [PInt 256, PInt 512, PInt 1024])]"

definition example_b :: doc where
  "example_b =
     [(''_id'', PObjectId (ObjectId 2)), (''chip'', PStr ''A14''),
      (''display_size'', PFloat (float_lit (109 / 10))), (''cellular'', PBool True),
      (''storage_options'', PList [PInt 64, PInt 256])]"

definition example_db :: database where
  "example_db = \<lparr>alive = True, ipad = [example_a, example_b], next_id = 3\<rparr>"

definition example_request :: CompareRequest where
  "example_request =
     \<lparr>req_a = ''000000000000000000000001'', req_b = ''000000000000000000000002''\<rparr>"

definition swapped_request :: CompareRequest where
  "swapped_request =
     \<lparr>req_a = ''000000000000000000000002'', req_b = ''000000000000000000000001''\<rparr>"

definition same_request :: CompareRequest where
  "same_request =
     \<lparr>req_a = ''000000000000000000000001'', req_b = ''000000000000000000000001''\<rparr>"

text \<open>A record whose display size is NaN, and the request that compares it with itself.\<close>

definition example_nan :: doc where
  "example_nan =
     [(''_id'', PObjectId (ObjectId 3)), (''chip'', PStr ''M4''), (''display_size'', PFloat NaN),
      (''cellular'', PBool True), (''storage_options'', PList [PInt 256])]"

definition nan_db :: database where
  "nan_db = \<lparr>alive = True, ipad = [example_nan], next_id = 4\<rparr>"

definition nan_request :: CompareRequest where
  "nan_request =
     \<lparr>req_a = ''000000000000000000000003'', req_b = ''000000000000000000000003''\<rparr>"

text \<open>A record that holds identifiers inside a list.\<close>

definition example_nested :: doc where
  "example_nested =
     [(''_id'', PObjectId (ObjectId 1)), (''name'', PStr ''iPad mini''),
      (''accessories'', PList [PObjectId (ObjectId 2)])]"

section \<open>Properties of serialisation\<close>

lemma map_of_stringify:
  "map_of (map (\<lambda>(k, v). (k, stringify v)) d) k = map_option stringify (map_of d k)"
  by (induction d) auto

lemma length_oid_str: "length (oid_str oid) = 24"
  by (simp add: oid_str_def)

lemma serialize_doc_lookup:
  assumes "map_of doc ''_id'' = Some v"
  shows "map_of (serialize_doc py doc) k =
           (if k = ''_id'' then None
            else if k = ''id'' then Some (PStr (py_str py v))
            else map_option stringify (map_of doc k))"
proof -
  from assms have ne: "doc \<noteq> []" by auto
  show ?thesis
    using assms ne
    by (simp add: serialize_doc_def map_of_stringify update_conv' delete_conv')
      (simp add: stringify_def)
qed

text \<open>
  For a stored document, one that has the native \<open>_id\<close>, the serialised document has no
  \<open>_id\<close> key; its \<open>id\<close> holds the string form of \<open>_id\<close>, which for an identifier is its
  24 hexadecimal digits and so is not empty; every other field whose value is an
  identifier holds its string afterwards; and every other field keeps its value, and no
  other key appears.
\<close>

lemma serialize_doc_frame:
  assumes "map_of doc ''_id'' = Some v"
  shows "map_of (serialize_doc py doc) ''_id'' = None
       \<and> map_of (serialize_doc py doc) ''id'' = Some (PStr (py_str py v))
       \<and> (\<forall>oid. v = PObjectId oid \<longrightarrow>
             map_of (serialize_doc py doc) ''id'' = Some (PStr (oid_str oid)) \<and> length (oid_str oid) = 24)
       \<and> (\<forall>k. k \<noteq> ''_id'' \<and> k \<noteq> ''id'' \<longrightarrow>
             (\<forall>oid. map_of doc k = Some (PObjectId oid) \<longrightarrow>
                map_of (serialize_doc py doc) k = Some (PStr (oid_str oid)))
           \<and> ((\<forall>oid. map_of doc k \<noteq> Some (PObjectId oid)) \<longrightarrow>
                map_of (serialize_doc py doc) k = map_of doc k))"
proof -
  note L = serialize_doc_lookup [OF assms, of py]
  have 1: "map_of (serialize_doc py doc) ''_id'' = None" by (simp add: L)
  have 2: "map_of (serialize_doc py doc) ''id'' = Some (PStr (py_str py v))" by (simp add: L)
  have 3: "\<forall>oid. v = PObjectId oid \<longrightarrow>
             map_of (serialize_doc py doc) ''id'' = Some (PStr (oid_str oid)) \<and> length (oid_str oid) = 24"
    by (simp add: 2 py_str_def length_oid_str)
  have 4: "\<forall>k. k \<noteq> ''_id'' \<and> k \<noteq> ''id'' \<longrightarrow>
             (\<forall>oid. map_of doc k = Some (PObjectId oid) \<longrightarrow>
                map_of (serialize_doc py doc) k = Some (PStr (oid_str oid)))
           \<and> ((\<forall>oid. map_of doc k \<noteq> Some (PObjectId oid)) \<longrightarrow>
                map_of (serialize_doc py doc) k = map_of doc k)"
  proof (intro allI impI conjI)
    fix k oid
    assume "k \<noteq> ''_id'' \<and> k \<noteq> ''id''" and "map_of doc k = Some (PObjectId oid)"
    then show "map_of (serialize_doc py doc) k = Some (PStr (oid_str oid))"
      by (simp add: L stringify_def)
  next
    fix k
    assume k: "k \<noteq> ''_id'' \<and> k \<noteq> ''id''"
      and n: "\<forall>oid. map_of doc k \<noteq> Some (PObjectId oid)"
    show "map_of (serialize_doc py doc) k = map_of doc k"
    proof (cases "map_of doc k")
      case None
      with k show ?thesis by (simp add: L)
    next
      case (Some w)
      with n have "\<forall>oid. w \<noteq> PObjectId oid" by simp
      then have "stringify w = w" by (cases w) (simp_all add: stringify_def)
      with k Some show ?thesis by (simp add: L)
    qed
  qed
  from 1 2 3 4 show ?thesis by blast
qed

lemma serialize_doc_frame_example:
  "map_of [(''_id'', PObjectId (ObjectId 1)), (''name'', PStr ''iPad mini''),
           (''owner'', PObjectId (ObjectId 2))] ''_id'' = Some (PObjectId (ObjectId 1))
   \<and> map_of (serialize_doc no_builtins
        [(''_id'', PObjectId (ObjectId 1)), (''name'', PStr ''iPad mini''),
         (''owner'', PObjectId (ObjectId 2))]) ''_id'' = None
   \<and> map_of (serialize_doc no_builtins
        [(''_id'', PObjectId (ObjectId 1)), (''name'', PStr ''iPad mini''),
         (''owner'', PObjectId (ObjectId 2))]) ''id'' = Some (PStr (oid_str (ObjectId 1)))
   \<and> map_of (serialize_doc no_builtins
        [(''_id'', PObjectId (ObjectId 1)), (''name'', PStr ''iPad mini''),
         (''owner'', PObjectId (ObjectId 2))]) ''owner'' = Some (PStr (oid_str (ObjectId 2)))
   \<and> map_of (serialize_doc no_builtins
        [(''_id'', PObjectId (ObjectId 1)), (''name'', PStr ''iPad mini''),
         (''owner'', PObjectId (ObjectId 2))]) ''name'' = Some (PStr ''iPad mini'')"
proof -
  let ?d = "[(''_id'', PObjectId (ObjectId 1)), (''name'', PStr ''iPad mini''),
             (''owner'', PObjectId (ObjectId 2))]"
  have h: "map_of ?d ''_id'' = Some (PObjectId (ObjectId 1))" by simp
  have o: "map_of ?d ''owner'' = Some (PObjectId (ObjectId 2))" by simp
  have n: "\<forall>oid. map_of ?d ''name'' \<noteq> Some (PObjectId oid)" by simp
  note F = serialize_doc_frame [OF h, of no_builtins]
  have 1: "map_of (serialize_doc no_builtins ?d) ''_id'' = None"
    by (rule F [THEN conjunct1])
  have 2: "map_of (serialize_doc no_builtins ?d) ''id'' = Some (PStr (oid_str (ObjectId 1)))"
    by (rule F [THEN conjunct2, THEN conjunct2, THEN conjunct1, rule_format, OF refl, THEN conjunct1])
  note G = F [THEN conjunct2, THEN conjunct2, THEN conjunct2, rule_format]
  have k1: "''owner'' \<noteq> ''_id'' \<and> ''owner'' \<noteq> ''id''" by simp
  have k2: "''name'' \<noteq> ''_id'' \<and> ''name'' \<noteq> ''id''" by simp
  have 4: "map_of (serialize_doc no_builtins ?d) ''owner'' = Some (PStr (oid_str (ObjectId 2)))"
    by (rule G [OF k1, THEN conjunct1, rule_format, OF o])
  have "map_of (serialize_doc no_builtins ?d) ''name'' = map_of ?d ''name''"
    by (rule G [OF k2, THEN conjunct2, THEN mp, OF n])
  then have 5: "map_of (serialize_doc no_builtins ?d) ''name'' = Some (PStr ''iPad mini'')" by simp
  from h 1 2 4 5 show ?thesis by (intro conjI)
qed

text \<open>
  C8, on the code. Only the values of the fields themselves are looked at: a field other
  than \<open>_id\<close> and \<open>id\<close> whose value is a list or a sub-document keeps that value as it is,
  with the identifiers inside it.
\<close>

theorem serialize_doc_nested:
  "map_of doc ''_id'' = Some v \<and> k \<noteq> ''_id'' \<and> k \<noteq> ''id''
     \<and> (map_of doc k = Some (PList l) \<or> map_of doc k = Some (PDict m)) \<longrightarrow>
   map_of (serialize_doc py doc) k = map_of doc k"
proof
  assume h: "map_of doc ''_id'' = Some v \<and> k \<noteq> ''_id'' \<and> k \<noteq> ''id''
     \<and> (map_of doc k = Some (PList l) \<or> map_of doc k = Some (PDict m))"
  note L = serialize_doc_lookup [OF h [THEN conjunct1], of py k]
  from h have k: "k \<noteq> ''_id''" "k \<noteq> ''id''" by simp_all
  from h have "map_option stringify (map_of doc k) = map_of doc k"
    by (auto simp add: stringify_def)
  with k show "map_of (serialize_doc py doc) k = map_of doc k" by (simp add: L)
qed

theorem serialize_doc_nested_witness:
  "map_of example_nested ''_id'' = Some (PObjectId (ObjectId 1))
   \<and> ''accessories'' \<noteq> ''_id'' \<and> ''accessories'' \<noteq> ''id''
   \<and> map_of example_nested ''accessories'' = Some (PList [PObjectId (ObjectId 2)])
   \<and> map_of (serialize_doc no_builtins example_nested) ''accessories''
       = Some (PList [PObjectId (ObjectId 2)])"
proof -
  have i: "map_of example_nested ''_id'' = Some (PObjectId (ObjectId 1))"
    by (simp add: example_nested_def)
  have a: "map_of example_nested ''accessories'' = Some (PList [PObjectId (ObjectId 2)])"
    by (simp add: example_nested_def)
  have k: "''accessories'' \<noteq> ''_id''" "''accessories'' \<noteq> ''id''" by simp_all
  from i k a have h: "map_of example_nested ''_id'' = Some (PObjectId (ObjectId 1))
     \<and> ''accessories'' \<noteq> ''_id'' \<and> ''accessories'' \<noteq> ''id''
     \<and> (map_of example_nested ''accessories'' = Some (PList [PObjectId (ObjectId 2)])
         \<or> map_of example_nested ''accessories'' = Some (PDict []))"
    by (intro conjI disjI1)
  have "map_of (serialize_doc no_builtins example_nested) ''accessories''
      = map_of example_nested ''accessories''"
    by (rule serialize_doc_nested [where py = no_builtins and m = "[]", THEN mp, OF h])
  with a have 1: "map_of (serialize_doc no_builtins example_nested) ''accessories''
       = Some (PList [PObjectId (ObjectId 2)])"
    by simp
  from i k a 1 show ?thesis by (intro conjI)
qed

section \<open>Properties of scoring\<close>

lemma get_update: "get (AList.update k v x) k' d = (if k' = k then v else get x k' d)"
  by (simp add: get_def update_conv')

lemma rnd_0: "rnd 0 = 0"
  by (simp add: rnd_def)

lemma float_of_int_0: "float_of_int 0 = Finite 0"
  by (simp add: float_of_int_def rnd_0)

lemma float_of_int_1: "float_of_int 1 = Finite 1"
  by code_simp

lemma float_mul_0: "float_mul (Finite 0) (float_lit r) = Finite 0"
  by (simp add: float_lit_def rnd_0)

lemma float_mul_1_lit: "float_mul (Finite 1) (float_lit (3 / 10)) = float_lit (3 / 10)"
  by code_simp

lemma float_mul_commute: "float_mul a b = float_mul b a"
  by (cases a; cases b) (auto simp: mult.commute)

lemma cellular_term:
  "float_mul (float_of_int (if t then 1 else 0)) (float_lit (3 / 10)) =
     (if t then float_lit (3 / 10) else Finite 0)"
  by (simp add: float_of_int_0 float_of_int_1 float_mul_0 float_mul_1_lit)

lemma chip_score_tier:
  "(case chip_score (upper c) of None \<Rightarrow> 2 | Some t \<Rightarrow> t) = chip_tier_score c"
  by (simp add: chip_score_def chip_tier_score_def Let_def)

lemma score_chip:
  assumes "get x ''chip'' (PStr []) = PStr c"
  shows "score py x =
     (case py_float py (get x ''display_size'' (PInt 0)) of
        Inl e \<Rightarrow> Inl e
      | Inr ds \<Rightarrow>
          (case py_len (get x ''storage_options'' (PList [])) of
             Inl e \<Rightarrow> Inl e
           | Inr n \<Rightarrow>
               Inr (float_add
                      (float_add
                         (float_add (Finite (chip_tier_score c)) (float_mul ds (float_lit (2 / 10))))
                         (if truthy (get x ''cellular'' PNone) then float_lit (3 / 10) else Finite 0))
                      (float_mul (float_lit (1 / 10)) (float_of_int (int n))))))"
  using assms
  by (simp add: score_def Let_def chip_score_tier float_of_int_0 float_of_int_1 float_mul_0
      float_mul_1_lit float_mul_commute [of "float_lit (1 / 10)"]
      split: sum.splits)

lemma score_not_str:
  assumes "\<forall>c. get x ''chip'' (PStr []) \<noteq> PStr c"
  shows "score py x = Inl AttributeError"
  using assms by (cases "get x ''chip'' (PStr [])") (simp_all add: score_def)

lemma score_spec:
  assumes "score py x = Inr s"
  shows "s = spec_score py x"
proof (cases "\<exists>c. get x ''chip'' (PStr []) = PStr c")
  case True
  then obtain c where c: "get x ''chip'' (PStr []) = PStr c" by blast
  from assms show ?thesis
    unfolding score_chip [OF c]
    by (auto simp: spec_score_def spec_score_with_def chip_of_def display_of_def count_of_def c
        split: sum.splits)
next
  case False
  then have "score py x = Inl AttributeError" by (simp add: score_not_str)
  with assms show ?thesis by simp
qed

lemma score_scorable:
  assumes "scorable py x"
  shows "score py x = Inr (spec_score py x)"
proof -
  from assms obtain c where c: "get x ''chip'' (PStr []) = PStr c"
    by (cases "get x ''chip'' (PStr [])") (simp_all add: scorable_def)
  from assms obtain ds where f: "py_float py (get x ''display_size'' (PInt 0)) = Inr ds"
    by (cases "py_float py (get x ''display_size'' (PInt 0))") (simp_all add: scorable_def)
  from assms obtain n where l: "py_len (get x ''storage_options'' (PList [])) = Inr n"
    by (cases "py_len (get x ''storage_options'' (PList []))") (simp_all add: scorable_def)
  have "\<exists>s. score py x = Inr s" unfolding score_chip [OF c] f l by simp
  then obtain s where s: "score py x = Inr s" ..
  from score_spec [OF s] s show ?thesis by simp
qed

lemma score_not_scorable:
  assumes "\<not> scorable py x"
  shows "\<exists>e. score py x = Inl e"
proof (cases "\<exists>c. get x ''chip'' (PStr []) = PStr c")
  case True
  then obtain c where c: "get x ''chip'' (PStr []) = PStr c" by blast
  from assms show ?thesis
    unfolding score_chip [OF c]
    by (auto simp: scorable_def c split: sum.splits)
next
  case False
  then show ?thesis by (simp add: score_not_str)
qed

section \<open>Properties of the compare handler\<close>

lemma oid1: "ObjectId_of_str ''000000000000000000000001'' = Inr (ObjectId 1)"
  by code_simp

lemma oid2: "ObjectId_of_str ''000000000000000000000002'' = Inr (ObjectId 2)"
  by code_simp

lemma oid3: "ObjectId_of_str ''000000000000000000000003'' = Inr (ObjectId 3)"
  by code_simp

lemma find_one_Some:
  assumes "find_one d oid = Inr (Some x)"
  shows "map_of x ''_id'' = Some (PObjectId oid)"
proof -
  from assms have "List.find (\<lambda>x. map_of x ''_id'' = Some (PObjectId oid)) (ipad d) = Some x"
    by (simp add: find_one_def split: if_splits)
  then show ?thesis by (auto simp add: find_Some_iff)
qed

lemma fetched_id:
  assumes "fetched d s x"
  shows "\<exists>oid. ObjectId_of_str s = Inr oid \<and> find_one d oid = Inr (Some x)
           \<and> map_of x ''_id'' = Some (PObjectId oid)"
proof (cases "ObjectId_of_str s")
  case (Inl e)
  with assms show ?thesis by (simp add: fetched_def)
next
  case (Inr oid)
  with assms have f: "find_one d oid = Inr (Some x)" by (simp add: fetched_def)
  from Inr f find_one_Some [OF f] show ?thesis by simp
qed

lemma fetch_both_fetched:
  assumes "fetched d (req_a p) a" and "fetched d (req_b p) b"
  shows "fetch_both d p = Inr (Some a, Some b)" and "a \<noteq> []" and "b \<noteq> []"
proof -
  from fetched_id [OF assms(1)] obtain oa where
    oa: "ObjectId_of_str (req_a p) = Inr oa" "find_one d oa = Inr (Some a)"
      "map_of a ''_id'' = Some (PObjectId oa)"
    by (elim exE conjE)
  from fetched_id [OF assms(2)] obtain ob where
    ob: "ObjectId_of_str (req_b p) = Inr ob" "find_one d ob = Inr (Some b)"
      "map_of b ''_id'' = Some (PObjectId ob)"
    by (elim exE conjE)
  show "fetch_both d p = Inr (Some a, Some b)"
    by (simp add: fetch_both_def oa(1,2) ob(1,2))
  from oa(3) show "a \<noteq> []" by auto
  from ob(3) show "b \<noteq> []" by auto
qed

lemma compare_fetched:
  assumes "fetched d (req_a p) a" and "fetched d (req_b p) b"
  shows "compare_ipads py (Some d) p =
     (case score py (serialize_doc py a) of
        Inl e \<Rightarrow> Inl e
      | Inr sa \<Rightarrow>
          (case score py (serialize_doc py b) of
             Inl e \<Rightarrow> Inl e
           | Inr sb \<Rightarrow>
               Inr \<lparr>resp_a = serialize_doc py a, resp_b = serialize_doc py b,
                    score_a = sa, score_b = sb,
                    recommended = (if float_ge sa sb then ''A'' else ''B'')\<rparr>))"
  using fetch_both_fetched [OF assms]
  by (simp add: compare_ipads_def falsy_doc_def Let_def)

lemma compare_scored:
  assumes "fetched d (req_a p) a" and "fetched d (req_b p) b"
    and "score py (serialize_doc py a) = Inr sa" and "score py (serialize_doc py b) = Inr sb"
  shows "compare_ipads py (Some d) p =
     Inr \<lparr>resp_a = serialize_doc py a, resp_b = serialize_doc py b, score_a = sa, score_b = sb,
          recommended = (if float_ge sa sb then ''A'' else ''B'')\<rparr>"
  by (simp add: compare_fetched [OF assms(1,2)] assms(3,4))

lemma compare_ipads_Inr:
  assumes "compare_ipads py db payload = Inr r"
  shows "score py (resp_a r) = Inr (score_a r) \<and> score py (resp_b r) = Inr (score_b r)
       \<and> recommended r = (if float_ge (score_a r) (score_b r) then ''A'' else ''B'')"
  using assms
  by (auto simp: compare_ipads_def Let_def split: option.splits sum.splits if_splits prod.splits)

lemma float_ge_refl: "s \<noteq> NaN \<Longrightarrow> float_ge s s"
  by (cases s) simp_all

subsection \<open>The records of the examples\<close>

lemma fetched_example:
  "fetched example_db (req_a example_request) example_a"
  "fetched example_db (req_b example_request) example_b"
  "fetched example_db (req_a swapped_request) example_b"
  "fetched example_db (req_b swapped_request) example_a"
  "fetched example_db (req_a same_request) example_a"
  "fetched example_db (req_b same_request) example_a"
  by (simp_all add: fetched_def example_request_def swapped_request_def same_request_def oid1 oid2
      find_one_def example_db_def example_a_def example_b_def)

lemma fetched_nan:
  "fetched nan_db (req_a nan_request) example_nan"
  "fetched nan_db (req_b nan_request) example_nan"
  by (simp_all add: fetched_def nan_request_def oid3 find_one_def nan_db_def example_nan_def)

lemma score_example_a:
  "score no_builtins (serialize_doc no_builtins example_a) = Inr (float_lit (78 / 10))"
  by code_simp

lemma score_example_b:
  "score no_builtins (serialize_doc no_builtins example_b) = Inr (float_lit (518 / 100))"
  by code_simp

lemma score_example_nan:
  "score no_builtins (serialize_doc no_builtins example_nan) = Inr NaN"
  by code_simp

lemma scorable_example:
  "scorable no_builtins (serialize_doc no_builtins example_a)"
  "scorable no_builtins (serialize_doc no_builtins example_b)"
  by code_simp+

lemma spec_score_example:
  "spec_score no_builtins (serialize_doc no_builtins example_a) = float_lit (78 / 10)"
  "spec_score no_builtins (serialize_doc no_builtins example_b) = float_lit (518 / 100)"
  by code_simp+

lemma example_ge:
  "float_ge (float_lit (78 / 10)) (float_lit (518 / 100))"
  "\<not> float_ge (float_lit (518 / 100)) (float_lit (78 / 10))"
  "float_lit (78 / 10) \<noteq> NaN"
  by code_simp+

lemma float_of_int_11: "float_of_int 11 = Finite 11"
  by code_simp

lemma sum_a:
  "float_add (float_add (float_add (Finite (chip_tier_score ''M4''))
        (float_mul (Finite 11) (float_lit (2 / 10))))
      (float_lit (3 / 10))) (float_mul (float_lit (1 / 10)) (float_of_int 3)) = float_lit (78 / 10)"
  by code_simp

lemma sum_b:
  "float_add (float_add (float_add (Finite (chip_tier_score ''A14''))
        (float_mul (float_lit (109 / 10)) (float_lit (2 / 10))))
      (float_lit (3 / 10))) (float_mul (float_lit (1 / 10)) (float_of_int 2)) = float_lit (518 / 100)"
  by code_simp

lemma score_record_a:
  assumes "map_of x ''chip'' = Some (PStr ''M4'')"
    and "map_of x ''display_size'' = Some d" and "d = PInt 11 \<or> d = PFloat (Finite 11)"
    and "map_of x ''cellular'' = Some (PBool True)"
    and "map_of x ''storage_options'' = Some (PList [u, v, w])"
  shows "score py x = Inr (float_lit (78 / 10))"
proof -
  have c: "get x ''chip'' (PStr []) = PStr ''M4''" using assms(1) by (simp add: get_def)
  have f: "py_float py (get x ''display_size'' (PInt 0)) = Inr (Finite 11)"
    using assms(2,3) by (auto simp: get_def py_float_def float_of_int_11)
  have t: "truthy (get x ''cellular'' PNone)" using assms(4) by (simp add: get_def truthy_def)
  have l: "py_len (get x ''storage_options'' (PList [])) = Inr 3"
    using assms(5) by (simp add: get_def py_len_def)
  show ?thesis
    unfolding score_chip [OF c] f l using t sum_a by simp
qed

lemma score_record_b:
  assumes "map_of x ''chip'' = Some (PStr ''A14'')"
    and "map_of x ''display_size'' = Some (PFloat (float_lit (109 / 10)))"
    and "map_of x ''cellular'' = Some (PBool True)"
    and "map_of x ''storage_options'' = Some (PList [u, v])"
  shows "score py x = Inr (float_lit (518 / 100))"
proof -
  have c: "get x ''chip'' (PStr []) = PStr ''A14''" using assms(1) by (simp add: get_def)
  have f: "py_float py (get x ''display_size'' (PInt 0)) = Inr (float_lit (109 / 10))"
    using assms(2) by (simp add: get_def py_float_def)
  have t: "truthy (get x ''cellular'' PNone)" using assms(3) by (simp add: get_def truthy_def)
  have l: "py_len (get x ''storage_options'' (PList [])) = Inr 2"
    using assms(4) by (simp add: get_def py_len_def)
  show ?thesis
    unfolding score_chip [OF c] f l using t sum_b by simp
qed

lemma tier_table:
  "chip_tier_score ''M4'' = 5 \<and> chip_tier_score ''M3'' = 9 / 2 \<and> chip_tier_score ''M2'' = 4
   \<and> chip_tier_score ''M1'' = 7 / 2 \<and> chip_tier_score ''A15'' = 3
   \<and> chip_tier_score ''A14'' = 5 / 2"
  by code_simp

lemma score_cong:
  assumes "get x ''chip'' (PStr []) = get y ''chip'' (PStr [])"
    and "get x ''display_size'' (PInt 0) = get y ''display_size'' (PInt 0)"
    and "get x ''cellular'' PNone = get y ''cellular'' PNone"
    and "get x ''storage_options'' (PList []) = get y ''storage_options'' (PList [])"
  shows "score py x = score py y"
  by (simp only: score_def assms)

subsection \<open>Scoring the serialised record\<close>

lemma get_serialize:
  assumes "map_of doc ''_id'' = Some v" and "k \<noteq> ''_id''" and "k \<noteq> ''id''"
    and "\<forall>oid. map_of doc k \<noteq> Some (PObjectId oid)"
  shows "get (serialize_doc py doc) k dflt = get doc k dflt"
proof (cases "map_of doc k")
  case None
  with assms(2,3) show ?thesis by (simp add: get_def serialize_doc_lookup [OF assms(1)])
next
  case (Some w)
  with assms(4) have "\<forall>oid. w \<noteq> PObjectId oid" by simp
  then have "stringify w = w" by (cases w) (simp_all add: stringify_def)
  with assms(2,3) Some show ?thesis by (simp add: get_def serialize_doc_lookup [OF assms(1)])
qed

lemma score_serialize:
  assumes "map_of doc ''_id'' = Some v"
    and "\<forall>k oid. k \<in> {''chip'', ''display_size'', ''cellular'', ''storage_options''} \<longrightarrow>
           map_of doc k \<noteq> Some (PObjectId oid)"
  shows "score py (serialize_doc py doc) = score py doc"
    and "spec_score py (serialize_doc py doc) = spec_score py doc"
    and "scorable py (serialize_doc py doc) = scorable py doc"
proof -
  have g: "get (serialize_doc py doc) ''chip'' dflt = get doc ''chip'' dflt"
    "get (serialize_doc py doc) ''display_size'' dflt = get doc ''display_size'' dflt"
    "get (serialize_doc py doc) ''cellular'' dflt = get doc ''cellular'' dflt"
    "get (serialize_doc py doc) ''storage_options'' dflt = get doc ''storage_options'' dflt"
    for dflt
    using assms(2) by (simp_all add: get_serialize [OF assms(1)])
  show "score py (serialize_doc py doc) = score py doc" by (rule score_cong) (rule g)+
  show "spec_score py (serialize_doc py doc) = spec_score py doc"
    by (simp only: spec_score_def spec_score_with_def chip_of_def display_of_def count_of_def g)
  show "scorable py (serialize_doc py doc) = scorable py doc"
    by (simp only: scorable_def g)
qed

text \<open>
  C1. For the two records the handler fetches for a request, when both can be scored, the
  handler answers, and the score it reports for each is the specification's formula on
  that record as it is returned, with the tiers M4 = 5, M3 = 4.5, M2 = 4, M1 = 3.5,
  A15 = 3 and A14 = 2.5. The returned record is the serialised one; its formula is the
  formula of the stored record when no scoring field of that holds an identifier. A
  record with chip M4, display size 11, cellular and three storage options scores the
  binary64 number 7.8, and one with chip A14, display size 10.9, cellular and two storage
  options scores 5.18.
\<close>

theorem compare_score_formula:
  "(\<forall>a b. fetched d (req_a payload) a \<and> fetched d (req_b payload) b
        \<and> scorable py (serialize_doc py a) \<and> scorable py (serialize_doc py b) \<longrightarrow>
        compare_ipads py (Some d) payload =
          Inr \<lparr>resp_a = serialize_doc py a, resp_b = serialize_doc py b,
               score_a = spec_score py (serialize_doc py a),
               score_b = spec_score py (serialize_doc py b),
               recommended =
                 (if float_ge (spec_score py (serialize_doc py a)) (spec_score py (serialize_doc py b))
                  then ''A'' else ''B'')\<rparr>)
   \<and> (\<forall>a s. fetched d s a
        \<and> (\<forall>k oid. k \<in> {''chip'', ''display_size'', ''cellular'', ''storage_options''} \<longrightarrow>
              map_of a k \<noteq> Some (PObjectId oid)) \<longrightarrow>
        spec_score py (serialize_doc py a) = spec_score py a
        \<and> scorable py (serialize_doc py a) = scorable py a)
   \<and> (\<forall>r. compare_ipads py db payload = Inr r \<longrightarrow>
        score_a r = spec_score py (resp_a r) \<and> score_b r = spec_score py (resp_b r))
   \<and> (chip_tier_score ''M4'' = 5 \<and> chip_tier_score ''M3'' = 9 / 2 \<and> chip_tier_score ''M2'' = 4
      \<and> chip_tier_score ''M1'' = 7 / 2 \<and> chip_tier_score ''A15'' = 3
      \<and> chip_tier_score ''A14'' = 5 / 2)
   \<and> (\<forall>x d u v w.
        map_of x ''chip'' = Some (PStr ''M4'') \<and> map_of x ''display_size'' = Some d
        \<and> (d = PInt 11 \<or> d = PFloat (Finite 11)) \<and> map_of x ''cellular'' = Some (PBool True)
        \<and> map_of x ''storage_options'' = Some (PList [u, v, w]) \<longrightarrow>
        score py x = Inr (float_lit (78 / 10)))
   \<and> (\<forall>x u v.
        map_of x ''chip'' = Some (PStr ''A14'')
        \<and> map_of x ''display_size'' = Some (PFloat (float_lit (109 / 10)))
        \<and> map_of x ''cellular'' = Some (PBool True)
        \<and> map_of x ''storage_options'' = Some (PList [u, v]) \<longrightarrow>
        score py x = Inr (float_lit (518 / 100)))"
proof -
  have 1: "compare_ipads py (Some d) payload =
          Inr \<lparr>resp_a = serialize_doc py a, resp_b = serialize_doc py b,
               score_a = spec_score py (serialize_doc py a),
               score_b = spec_score py (serialize_doc py b),
               recommended =
                 (if float_ge (spec_score py (serialize_doc py a)) (spec_score py (serialize_doc py b))
                  then ''A'' else ''B'')\<rparr>"
    if h: "fetched d (req_a payload) a \<and> fetched d (req_b payload) b
        \<and> scorable py (serialize_doc py a) \<and> scorable py (serialize_doc py b)" for a b
  proof -
    note c2 = conjunct2
    note fa = h [THEN conjunct1] and fb = h [THEN c2, THEN conjunct1]
    note sa = score_scorable [OF h [THEN c2, THEN c2, THEN conjunct1]]
    note sb = score_scorable [OF h [THEN c2, THEN c2, THEN c2]]
    show ?thesis by (rule compare_scored [OF fa fb sa sb])
  qed
  have 2: "spec_score py (serialize_doc py a) = spec_score py a
        \<and> scorable py (serialize_doc py a) = scorable py a"
    if h: "fetched d s a
        \<and> (\<forall>k oid. k \<in> {''chip'', ''display_size'', ''cellular'', ''storage_options''} \<longrightarrow>
              map_of a k \<noteq> Some (PObjectId oid))" for a s
  proof -
    from fetched_id [OF h [THEN conjunct1]] obtain oid where i: "map_of a ''_id'' = Some (PObjectId oid)"
      by (elim exE conjE)
    note n = h [THEN conjunct2]
    from score_serialize(2) [OF i n] score_serialize(3) [OF i n] show ?thesis by (rule conjI)
  qed
  have 3: "score_a r = spec_score py (resp_a r) \<and> score_b r = spec_score py (resp_b r)"
    if h: "compare_ipads py db payload = Inr r" for r
  proof -
    note c = compare_ipads_Inr [OF h]
    from c [THEN conjunct1] have a: "score_a r = spec_score py (resp_a r)" by (rule score_spec)
    from c [THEN conjunct2, THEN conjunct1] have b: "score_b r = spec_score py (resp_b r)"
      by (rule score_spec)
    from a b show ?thesis by (rule conjI)
  qed
  have 5: "score py x = Inr (float_lit (78 / 10))"
    if "map_of x ''chip'' = Some (PStr ''M4'') \<and> map_of x ''display_size'' = Some d
        \<and> (d = PInt 11 \<or> d = PFloat (Finite 11)) \<and> map_of x ''cellular'' = Some (PBool True)
        \<and> map_of x ''storage_options'' = Some (PList [u, v, w])" for x d u v w
    using that by (elim conjE) (rule score_record_a; assumption)
  have 6: "score py x = Inr (float_lit (518 / 100))"
    if "map_of x ''chip'' = Some (PStr ''A14'')
        \<and> map_of x ''display_size'' = Some (PFloat (float_lit (109 / 10)))
        \<and> map_of x ''cellular'' = Some (PBool True)
        \<and> map_of x ''storage_options'' = Some (PList [u, v])" for x u v
    using that by (elim conjE) (rule score_record_b; assumption)
  have A1: "\<forall>a b. fetched d (req_a payload) a \<and> fetched d (req_b payload) b
        \<and> scorable py (serialize_doc py a) \<and> scorable py (serialize_doc py b) \<longrightarrow>
        compare_ipads py (Some d) payload =
          Inr \<lparr>resp_a = serialize_doc py a, resp_b = serialize_doc py b,
               score_a = spec_score py (serialize_doc py a),
               score_b = spec_score py (serialize_doc py b),
               recommended =
                 (if float_ge (spec_score py (serialize_doc py a)) (spec_score py (serialize_doc py b))
                  then ''A'' else ''B'')\<rparr>"
    by (intro allI impI) (rule 1)
  have A2: "\<forall>a s. fetched d s a
        \<and> (\<forall>k oid. k \<in> {''chip'', ''display_size'', ''cellular'', ''storage_options''} \<longrightarrow>
              map_of a k \<noteq> Some (PObjectId oid)) \<longrightarrow>
        spec_score py (serialize_doc py a) = spec_score py a
        \<and> scorable py (serialize_doc py a) = scorable py a"
    by (intro allI impI) (rule 2)
  have A3: "\<forall>r. compare_ipads py db payload = Inr r \<longrightarrow>
        score_a r = spec_score py (resp_a r) \<and> score_b r = spec_score py (resp_b r)"
    by (intro allI impI) (rule 3)
  have A5: "\<forall>x d u v w.
        map_of x ''chip'' = Some (PStr ''M4'') \<and> map_of x ''display_size'' = Some d
        \<and> (d = PInt 11 \<or> d = PFloat (Finite 11)) \<and> map_of x ''cellular'' = Some (PBool True)
        \<and> map_of x ''storage_options'' = Some (PList [u, v, w]) \<longrightarrow>
        score py x = Inr (float_lit (78 / 10))"
    by (intro allI impI) (rule 5)
  have A6: "\<forall>x u v.
        map_of x ''chip'' = Some (PStr ''A14'')
        \<and> map_of x ''display_size'' = Some (PFloat (float_lit (109 / 10)))
        \<and> map_of x ''cellular'' = Some (PBool True)
        \<and> map_of x ''storage_options'' = Some (PList [u, v]) \<longrightarrow>
        score py x = Inr (float_lit (518 / 100))"
    by (intro allI impI) (rule 6)
  show ?thesis
    by (rule conjI [OF A1 conjI [OF A2 conjI [OF A3 conjI [OF tier_table conjI [OF A5 A6]]]]])
qed

theorem compare_score_formula_witness:
  "fetched example_db (req_a example_request) example_a
   \<and> fetched example_db (req_b example_request) example_b
   \<and> scorable no_builtins (serialize_doc no_builtins example_a)
   \<and> scorable no_builtins (serialize_doc no_builtins example_b)
   \<and> compare_ipads no_builtins (Some example_db) example_request =
       Inr \<lparr>resp_a = serialize_doc no_builtins example_a,
            resp_b = serialize_doc no_builtins example_b,
            score_a = float_lit (78 / 10), score_b = float_lit (518 / 100), recommended = ''A''\<rparr>
   \<and> spec_score no_builtins (serialize_doc no_builtins example_a) = spec_score no_builtins example_a
   \<and> score no_builtins example_a = Inr (float_lit (78 / 10))
   \<and> score no_builtins example_b = Inr (float_lit (518 / 100))"
proof -
  note T = compare_score_formula [where py = no_builtins and d = example_db
      and payload = example_request and db = "Some example_db"]
  note c2 = conjunct2
  have h: "fetched example_db (req_a example_request) example_a
      \<and> fetched example_db (req_b example_request) example_b
      \<and> scorable no_builtins (serialize_doc no_builtins example_a)
      \<and> scorable no_builtins (serialize_doc no_builtins example_b)"
    using fetched_example(1,2) scorable_example by (intro conjI)
  have 1: "compare_ipads no_builtins (Some example_db) example_request =
       Inr \<lparr>resp_a = serialize_doc no_builtins example_a,
            resp_b = serialize_doc no_builtins example_b,
            score_a = float_lit (78 / 10), score_b = float_lit (518 / 100), recommended = ''A''\<rparr>"
    using T [THEN conjunct1, rule_format, OF h]
    by (simp only: spec_score_example example_ge if_True)
  have n: "fetched example_db (req_a example_request) example_a
      \<and> (\<forall>k oid. k \<in> {''chip'', ''display_size'', ''cellular'', ''storage_options''} \<longrightarrow>
            map_of example_a k \<noteq> Some (PObjectId oid))"
    using fetched_example(1) by (auto simp add: example_a_def)
  have 2: "spec_score no_builtins (serialize_doc no_builtins example_a)
      = spec_score no_builtins example_a"
    by (rule T [THEN c2, THEN conjunct1, rule_format, OF n, THEN conjunct1])
  have a: "map_of example_a ''chip'' = Some (PStr ''M4'')
      \<and> map_of example_a ''display_size'' = Some (PInt 11)
      \<and> (PInt 11 = PInt 11 \<or> PInt 11 = PFloat (Finite 11))
      \<and> map_of example_a ''cellular'' = Some (PBool True)
      \<and> map_of example_a ''storage_options'' = Some (PList [PInt 256, PInt 512, PInt 1024])"
    by (simp add: example_a_def)
  have b: "map_of example_b ''chip'' = Some (PStr ''A14'')
      \<and> map_of example_b ''display_size'' = Some (PFloat (float_lit (109 / 10)))
      \<and> map_of example_b ''cellular'' = Some (PBool True)
      \<and> map_of example_b ''storage_options'' = Some (PList [PInt 64, PInt 256])"
    by (simp add: example_b_def)
  have 3: "score no_builtins example_a = Inr (float_lit (78 / 10))"
    by (rule T [THEN c2, THEN c2, THEN c2, THEN c2, THEN conjunct1, rule_format, OF a])
  have 4: "score no_builtins example_b = Inr (float_lit (518 / 100))"
    by (rule T [THEN c2, THEN c2, THEN c2, THEN c2, THEN c2, rule_format, OF b])
  note hs = h [THEN conjunct1] h [THEN c2, THEN conjunct1] h [THEN c2, THEN c2, THEN conjunct1]
    h [THEN c2, THEN c2, THEN c2]
  from hs 1 2 3 4 show ?thesis by (intro conjI)
qed

text \<open>
  C2, as the code has it. For the two records the handler fetches for a request, with
  their scores: the handler recommends A exactly when the score of a is at least the
  score of b, in the order of binary64 numbers, and B otherwise, and its answer is
  determined by the two records. When the two records are the same, it recommends A
  exactly when their score is not NaN. The score of a record is a function of its four
  scoring fields alone.
\<close>

theorem compare_recommendation:
  "(\<forall>a b sa sb. fetched d (req_a payload) a \<and> fetched d (req_b payload) b
        \<and> score py (serialize_doc py a) = Inr sa \<and> score py (serialize_doc py b) = Inr sb \<longrightarrow>
        compare_ipads py (Some d) payload =
          Inr \<lparr>resp_a = serialize_doc py a, resp_b = serialize_doc py b,
               score_a = sa, score_b = sb,
               recommended = (if float_ge sa sb then ''A'' else ''B'')\<rparr>
        \<and> (a = b \<longrightarrow> sa = sb \<and> (float_ge sa sb \<longleftrightarrow> sa \<noteq> NaN)))
   \<and> (\<forall>r. compare_ipads py db payload = Inr r \<longrightarrow>
        score py (resp_a r) = Inr (score_a r) \<and> score py (resp_b r) = Inr (score_b r)
        \<and> (recommended r = ''A'' \<longleftrightarrow> float_ge (score_a r) (score_b r))
        \<and> (recommended r = ''B'' \<longleftrightarrow> \<not> float_ge (score_a r) (score_b r))
        \<and> (resp_a r = resp_b r \<and> score_a r \<noteq> NaN \<longrightarrow> recommended r = ''A''))
   \<and> (\<forall>x y. get x ''chip'' (PStr []) = get y ''chip'' (PStr [])
        \<and> get x ''display_size'' (PInt 0) = get y ''display_size'' (PInt 0)
        \<and> get x ''cellular'' PNone = get y ''cellular'' PNone
        \<and> get x ''storage_options'' (PList []) = get y ''storage_options'' (PList []) \<longrightarrow>
        score py x = score py y)"
proof -
  note c2 = conjunct2
  have 1: "compare_ipads py (Some d) payload =
          Inr \<lparr>resp_a = serialize_doc py a, resp_b = serialize_doc py b,
               score_a = sa, score_b = sb,
               recommended = (if float_ge sa sb then ''A'' else ''B'')\<rparr>
        \<and> (a = b \<longrightarrow> sa = sb \<and> (float_ge sa sb \<longleftrightarrow> sa \<noteq> NaN))"
    if h: "fetched d (req_a payload) a \<and> fetched d (req_b payload) b
        \<and> score py (serialize_doc py a) = Inr sa \<and> score py (serialize_doc py b) = Inr sb"
    for a b sa sb
  proof (rule conjI)
    note fa = h [THEN conjunct1] and fb = h [THEN c2, THEN conjunct1]
    note sa = h [THEN c2, THEN c2, THEN conjunct1] and sb = h [THEN c2, THEN c2, THEN c2]
    show "compare_ipads py (Some d) payload =
          Inr \<lparr>resp_a = serialize_doc py a, resp_b = serialize_doc py b,
               score_a = sa, score_b = sb,
               recommended = (if float_ge sa sb then ''A'' else ''B'')\<rparr>"
      by (rule compare_scored [OF fa fb sa sb])
    show "a = b \<longrightarrow> sa = sb \<and> (float_ge sa sb \<longleftrightarrow> sa \<noteq> NaN)"
    proof
      assume "a = b"
      with sa sb have e: "sa = sb" by simp
      have "float_ge sa sa \<longleftrightarrow> sa \<noteq> NaN" by (cases sa) simp_all
      with e show "sa = sb \<and> (float_ge sa sb \<longleftrightarrow> sa \<noteq> NaN)" by simp
    qed
  qed
  have 2: "score py (resp_a r) = Inr (score_a r) \<and> score py (resp_b r) = Inr (score_b r)
        \<and> (recommended r = ''A'' \<longleftrightarrow> float_ge (score_a r) (score_b r))
        \<and> (recommended r = ''B'' \<longleftrightarrow> \<not> float_ge (score_a r) (score_b r))
        \<and> (resp_a r = resp_b r \<and> score_a r \<noteq> NaN \<longrightarrow> recommended r = ''A'')"
    if h: "compare_ipads py db payload = Inr r" for r
  proof -
    note c = compare_ipads_Inr [OF h]
    note sa = c [THEN conjunct1] and sb = c [THEN c2, THEN conjunct1]
    note rec = c [THEN c2, THEN c2]
    from rec have A: "recommended r = ''A'' \<longleftrightarrow> float_ge (score_a r) (score_b r)" by simp
    from rec have B: "recommended r = ''B'' \<longleftrightarrow> \<not> float_ge (score_a r) (score_b r)" by simp
    have I: "resp_a r = resp_b r \<and> score_a r \<noteq> NaN \<longrightarrow> recommended r = ''A''"
    proof
      assume i: "resp_a r = resp_b r \<and> score_a r \<noteq> NaN"
      with sa sb have "score_a r = score_b r" by simp
      with i float_ge_refl [of "score_a r"] have "float_ge (score_a r) (score_b r)" by simp
      with A show "recommended r = ''A''" by simp
    qed
    from sa sb A B I show ?thesis by (intro conjI)
  qed
  have 3: "score py x = score py y"
    if "get x ''chip'' (PStr []) = get y ''chip'' (PStr [])
        \<and> get x ''display_size'' (PInt 0) = get y ''display_size'' (PInt 0)
        \<and> get x ''cellular'' PNone = get y ''cellular'' PNone
        \<and> get x ''storage_options'' (PList []) = get y ''storage_options'' (PList [])" for x y
    using that by (elim conjE) (rule score_cong; assumption)
  have A1: "\<forall>a b sa sb. fetched d (req_a payload) a \<and> fetched d (req_b payload) b
        \<and> score py (serialize_doc py a) = Inr sa \<and> score py (serialize_doc py b) = Inr sb \<longrightarrow>
        compare_ipads py (Some d) payload =
          Inr \<lparr>resp_a = serialize_doc py a, resp_b = serialize_doc py b,
               score_a = sa, score_b = sb,
               recommended = (if float_ge sa sb then ''A'' else ''B'')\<rparr>
        \<and> (a = b \<longrightarrow> sa = sb \<and> (float_ge sa sb \<longleftrightarrow> sa \<noteq> NaN))"
    by (intro allI impI) (rule 1)
  have A2: "\<forall>r. compare_ipads py db payload = Inr r \<longrightarrow>
        score py (resp_a r) = Inr (score_a r) \<and> score py (resp_b r) = Inr (score_b r)
        \<and> (recommended r = ''A'' \<longleftrightarrow> float_ge (score_a r) (score_b r))
        \<and> (recommended r = ''B'' \<longleftrightarrow> \<not> float_ge (score_a r) (score_b r))
        \<and> (resp_a r = resp_b r \<and> score_a r \<noteq> NaN \<longrightarrow> recommended r = ''A'')"
    by (intro allI impI) (rule 2)
  have A3: "\<forall>x y. get x ''chip'' (PStr []) = get y ''chip'' (PStr [])
        \<and> get x ''display_size'' (PInt 0) = get y ''display_size'' (PInt 0)
        \<and> get x ''cellular'' PNone = get y ''cellular'' PNone
        \<and> get x ''storage_options'' (PList []) = get y ''storage_options'' (PList []) \<longrightarrow>
        score py x = score py y"
    by (intro allI impI) (rule 3)
  from A1 A2 A3 show ?thesis by (intro conjI)
qed

theorem compare_recommendation_witness:
  "fetched example_db (req_a example_request) example_a
   \<and> fetched example_db (req_b example_request) example_b
   \<and> score no_builtins (serialize_doc no_builtins example_a) = Inr (float_lit (78 / 10))
   \<and> score no_builtins (serialize_doc no_builtins example_b) = Inr (float_lit (518 / 100))
   \<and> compare_ipads no_builtins (Some example_db) example_request =
       Inr \<lparr>resp_a = serialize_doc no_builtins example_a,
            resp_b = serialize_doc no_builtins example_b,
            score_a = float_lit (78 / 10), score_b = float_lit (518 / 100), recommended = ''A''\<rparr>
   \<and> compare_ipads no_builtins (Some example_db) swapped_request =
       Inr \<lparr>resp_a = serialize_doc no_builtins example_b,
            resp_b = serialize_doc no_builtins example_a,
            score_a = float_lit (518 / 100), score_b = float_lit (78 / 10), recommended = ''B''\<rparr>
   \<and> compare_ipads no_builtins (Some example_db) same_request =
       Inr \<lparr>resp_a = serialize_doc no_builtins example_a,
            resp_b = serialize_doc no_builtins example_a,
            score_a = float_lit (78 / 10), score_b = float_lit (78 / 10), recommended = ''A''\<rparr>"
proof -
  note T = compare_recommendation [where py = no_builtins and d = example_db
      and db = "Some example_db", THEN conjunct1, rule_format]
  note fe = fetched_example
  have h1: "fetched example_db (req_a example_request) example_a
      \<and> fetched example_db (req_b example_request) example_b
      \<and> score no_builtins (serialize_doc no_builtins example_a) = Inr (float_lit (78 / 10))
      \<and> score no_builtins (serialize_doc no_builtins example_b) = Inr (float_lit (518 / 100))"
    using fe(1,2) score_example_a score_example_b by (intro conjI)
  have h2: "fetched example_db (req_a swapped_request) example_b
      \<and> fetched example_db (req_b swapped_request) example_a
      \<and> score no_builtins (serialize_doc no_builtins example_b) = Inr (float_lit (518 / 100))
      \<and> score no_builtins (serialize_doc no_builtins example_a) = Inr (float_lit (78 / 10))"
    using fe(3,4) score_example_a score_example_b by (intro conjI)
  have h3: "fetched example_db (req_a same_request) example_a
      \<and> fetched example_db (req_b same_request) example_a
      \<and> score no_builtins (serialize_doc no_builtins example_a) = Inr (float_lit (78 / 10))
      \<and> score no_builtins (serialize_doc no_builtins example_a) = Inr (float_lit (78 / 10))"
    using fe(5,6) score_example_a by (intro conjI)
  have 1: "compare_ipads no_builtins (Some example_db) example_request =
       Inr \<lparr>resp_a = serialize_doc no_builtins example_a,
            resp_b = serialize_doc no_builtins example_b,
            score_a = float_lit (78 / 10), score_b = float_lit (518 / 100), recommended = ''A''\<rparr>"
    using T [where payload = example_request, OF h1, THEN conjunct1]
    by (simp only: example_ge if_True)
  have 2: "compare_ipads no_builtins (Some example_db) swapped_request =
       Inr \<lparr>resp_a = serialize_doc no_builtins example_b,
            resp_b = serialize_doc no_builtins example_a,
            score_a = float_lit (518 / 100), score_b = float_lit (78 / 10), recommended = ''B''\<rparr>"
    using T [where payload = swapped_request, OF h2, THEN conjunct1]
    by (simp only: example_ge if_False)
  note R = T [where payload = same_request, OF h3]
  from R [THEN conjunct2, THEN mp, OF refl, THEN conjunct2] example_ge(3)
  have g: "float_ge (float_lit (78 / 10)) (float_lit (78 / 10))" by (rule iffD2)
  have 3: "compare_ipads no_builtins (Some example_db) same_request =
       Inr \<lparr>resp_a = serialize_doc no_builtins example_a,
            resp_b = serialize_doc no_builtins example_a,
            score_a = float_lit (78 / 10), score_b = float_lit (78 / 10), recommended = ''A''\<rparr>"
    using R [THEN conjunct1] by (simp only: g if_True)
  note hs = h1 [THEN conjunct1] h1 [THEN conjunct2, THEN conjunct1]
    h1 [THEN conjunct2, THEN conjunct2, THEN conjunct1] h1 [THEN conjunct2, THEN conjunct2, THEN conjunct2]
  from hs 1 2 3 show ?thesis by (intro conjI)
qed

text \<open>
  The claim C2 as it is written fails: a record whose display size is NaN has the score
  NaN, and compared with itself it is recommended as B.
\<close>

theorem compare_identical_nan:
  "fetched nan_db (req_a nan_request) example_nan
   \<and> fetched nan_db (req_b nan_request) example_nan
   \<and> compare_ipads no_builtins (Some nan_db) nan_request =
       Inr \<lparr>resp_a = serialize_doc no_builtins example_nan,
            resp_b = serialize_doc no_builtins example_nan,
            score_a = NaN, score_b = NaN, recommended = ''B''\<rparr>"
proof -
  have "compare_ipads no_builtins (Some nan_db) nan_request =
       Inr \<lparr>resp_a = serialize_doc no_builtins example_nan,
            resp_b = serialize_doc no_builtins example_nan,
            score_a = NaN, score_b = NaN, recommended = ''B''\<rparr>"
    using compare_scored [OF fetched_nan score_example_nan score_example_nan] by simp
  with fetched_nan show ?thesis by (intro conjI)
qed

section \<open>Letter case and missing fields\<close>

lemma case_variant_upper:
  assumes "case_variant a b"
  shows "upper_char a = upper_char b"
proof (cases "a = b")
  case True
  then show ?thesis by simp
next
  case False
  with assms have l: "is_letter a" "is_letter b"
    and d: "(of_char a :: nat) + 32 = of_char b \<or> (of_char b :: nat) + 32 = of_char a"
    by (auto simp: case_variant_def)
  from d show ?thesis
  proof
    assume e: "(of_char a :: nat) + 32 = of_char b"
    with l have "(of_char a :: nat) < 97" by (auto simp: is_letter_def Let_def)
    moreover from e l have "97 \<le> (of_char b :: nat) \<and> (of_char b :: nat) \<le> 122"
      by (auto simp: is_letter_def Let_def)
    moreover from e have "(of_char b :: nat) - 32 = of_char a" by simp
    ultimately show ?thesis by (simp add: upper_char_def Let_def)
  next
    assume e: "(of_char b :: nat) + 32 = of_char a"
    with l have "(of_char b :: nat) < 97" by (auto simp: is_letter_def Let_def)
    moreover from e l have "97 \<le> (of_char a :: nat) \<and> (of_char a :: nat) \<le> 122"
      by (auto simp: is_letter_def Let_def)
    moreover from e have "(of_char a :: nat) - 32 = of_char b" by simp
    ultimately show ?thesis by (simp add: upper_char_def Let_def)
  qed
qed

lemma same_up_to_case_upper:
  assumes "same_up_to_case s t"
  shows "upper s = upper t"
  using assms unfolding same_up_to_case_def upper_def
  by (induction rule: list_all2_induct) (simp_all add: case_variant_upper)

lemma chip_tier_score_upper: "upper c = upper c' \<Longrightarrow> chip_tier_score c = chip_tier_score c'"
  by (simp add: chip_tier_score_def)

lemma score_update_chip:
  "score py (AList.update ''chip'' (PStr c) x) =
     (case py_float py (get x ''display_size'' (PInt 0)) of
        Inl e \<Rightarrow> Inl e
      | Inr ds \<Rightarrow>
          (case py_len (get x ''storage_options'' (PList [])) of
             Inl e \<Rightarrow> Inl e
           | Inr n \<Rightarrow>
               Inr (float_add
                      (float_add
                         (float_add (Finite (chip_tier_score c)) (float_mul ds (float_lit (2 / 10))))
                         (if truthy (get x ''cellular'' PNone) then float_lit (3 / 10) else Finite 0))
                      (float_mul (float_lit (1 / 10)) (float_of_int (int n))))))"
proof -
  have c: "get (AList.update ''chip'' (PStr c) x) ''chip'' (PStr []) = PStr c"
    by (simp add: get_update)
  have g: "get (AList.update ''chip'' (PStr c) x) ''display_size'' (PInt 0)
             = get x ''display_size'' (PInt 0)"
    "get (AList.update ''chip'' (PStr c) x) ''cellular'' PNone = get x ''cellular'' PNone"
    "get (AList.update ''chip'' (PStr c) x) ''storage_options'' (PList [])
       = get x ''storage_options'' (PList [])"
    by (simp_all add: get_update)
  show ?thesis unfolding score_chip [OF c] g by (rule refl)
qed

lemma tier_unrecognised:
  assumes "upper c \<notin> {''M4'', ''M3'', ''M2'', ''M1'', ''A15'', ''A14''}"
  shows "chip_tier_score c = 2"
  using assms by (simp add: chip_tier_score_def Let_def)

lemma same_up_to_case_m4: "same_up_to_case ''m4'' ''M4''"
  by code_simp

text \<open>
  C3. Changing only the letter case of the chip of a record leaves its score as it is;
  and when the chip, in upper case, is none of M4, M3, M2, M1, A15 and A14, its tier is 2
  and the score is the formula with 2 for the chip.
\<close>

theorem score_chip_case_insensitive:
  "(\<forall>c c'. same_up_to_case c c' \<longrightarrow>
      score py (AList.update ''chip'' (PStr c) x) = score py (AList.update ''chip'' (PStr c') x))
   \<and> (\<forall>c s. get x ''chip'' (PStr []) = PStr c
        \<and> upper c \<notin> {''M4'', ''M3'', ''M2'', ''M1'', ''A15'', ''A14''}
        \<and> score py x = Inr s \<longrightarrow>
        chip_tier_score c = 2 \<and> s = spec_score_with 2 py x)"
proof (intro conjI allI impI)
  fix c c'
  assume "same_up_to_case c c'"
  then have "chip_tier_score c = chip_tier_score c'"
    by (intro chip_tier_score_upper same_up_to_case_upper)
  then show "score py (AList.update ''chip'' (PStr c) x) = score py (AList.update ''chip'' (PStr c') x)"
    by (simp only: score_update_chip)
next
  fix c s
  assume h: "get x ''chip'' (PStr []) = PStr c
        \<and> upper c \<notin> {''M4'', ''M3'', ''M2'', ''M1'', ''A15'', ''A14''}
        \<and> score py x = Inr s"
  from h show t: "chip_tier_score c = 2"
    by (intro tier_unrecognised) (rule conjunct2 [THEN conjunct1])
  from h have "s = spec_score py x" by (intro score_spec) (rule conjunct2 [THEN conjunct2])
  moreover from h have "chip_of x = c" by (simp add: chip_of_def)
  ultimately show "s = spec_score_with 2 py x" by (simp add: spec_score_def t)
qed

theorem score_chip_case_insensitive_witness:
  "same_up_to_case ''m4'' ''M4''
   \<and> score no_builtins (AList.update ''chip'' (PStr ''m4'') example_a)
       = score no_builtins (AList.update ''chip'' (PStr ''M4'') example_a)
   \<and> get [(''chip'', PStr ''A9'')] ''chip'' (PStr []) = PStr ''A9''
   \<and> upper ''A9'' \<notin> {''M4'', ''M3'', ''M2'', ''M1'', ''A15'', ''A14''}
   \<and> score no_builtins [(''chip'', PStr ''A9'')] = Inr (Finite 2)
   \<and> chip_tier_score ''A9'' = 2
   \<and> Finite 2 = spec_score_with 2 no_builtins [(''chip'', PStr ''A9'')]"
proof -
  have 1: "score no_builtins (AList.update ''chip'' (PStr ''m4'') example_a)
       = score no_builtins (AList.update ''chip'' (PStr ''M4'') example_a)"
    by (rule score_chip_case_insensitive [of no_builtins example_a, THEN conjunct1, rule_format,
          OF same_up_to_case_m4])
  have g: "get [(''chip'', PStr ''A9'')] ''chip'' (PStr []) = PStr ''A9''" by (simp add: get_def)
  have u: "upper ''A9'' \<notin> {''M4'', ''M3'', ''M2'', ''M1'', ''A15'', ''A14''}" by code_simp
  have s: "score no_builtins [(''chip'', PStr ''A9'')] = Inr (Finite 2)" by code_simp
  from g u s have h: "get [(''chip'', PStr ''A9'')] ''chip'' (PStr []) = PStr ''A9''
        \<and> upper ''A9'' \<notin> {''M4'', ''M3'', ''M2'', ''M1'', ''A15'', ''A14''}
        \<and> score no_builtins [(''chip'', PStr ''A9'')] = Inr (Finite 2)" by (intro conjI)
  note R = score_chip_case_insensitive [of no_builtins "[(''chip'', PStr ''A9'')]", THEN conjunct2,
      rule_format, OF h]
  from same_up_to_case_m4 1 g u s R [THEN conjunct1] R [THEN conjunct2] show ?thesis
    by (intro conjI)
qed

subsection \<open>Missing fields\<close>

lemma rnd_2: "rnd 2 = 2"
  by code_simp

lemma score_empty: "score py [] = Inr (Finite 2)"
proof -
  have c: "get [] ''chip'' (PStr []) = PStr []" by (simp add: get_def)
  have t: "chip_tier_score [] = 2" by (simp add: chip_tier_score_def upper_def)
  show ?thesis
    unfolding score_chip [OF c]
    by (simp add: get_def py_float_def py_len_def truthy_def float_of_int_0 float_mul_0
        float_mul_commute [of _ "Finite 0"] rnd_2 t)
qed

lemma get_update_same: "map_of x k = None \<Longrightarrow> get (AList.update k d x) k' d' = (if k' = k then d else get x k' d')"
  by (simp add: get_update)

lemma score_default:
  assumes "get (AList.update k d x) ''chip'' (PStr []) = get x ''chip'' (PStr [])"
    and "get (AList.update k d x) ''display_size'' (PInt 0) = get x ''display_size'' (PInt 0)"
    and "truthy (get (AList.update k d x) ''cellular'' PNone) = truthy (get x ''cellular'' PNone)"
    and "get (AList.update k d x) ''storage_options'' (PList []) = get x ''storage_options'' (PList [])"
  shows "score py (AList.update k d x) = score py x"
  by (simp only: score_def assms)

lemma score_total:
  assumes "get x ''chip'' (PStr []) = PStr c"
    and "py_float py (get x ''display_size'' (PInt 0)) = Inr ds"
    and "py_len (get x ''storage_options'' (PList [])) = Inr n"
  shows "\<exists>s. score py x = Inr s"
  unfolding score_chip [OF assms(1)] assms(2,3) by simp

text \<open>
  C10. A record without a chip scores as one whose chip is the empty string, and so with
  tier 2; one without a display size as one whose display size is 0; one whose cellular
  field is missing or false-like as one whose cellular field is False, the cellular term
  being 0; one without storage options as one whose storage options are the empty list.
  When each of chip, display size and storage options is either missing or of its type,
  a score is produced; the record with no field at all scores 2.
\<close>

theorem score_missing_fields:
  "(map_of x ''chip'' = None \<longrightarrow>
      score py x = score py (AList.update ''chip'' (PStr []) x)
      \<and> (\<forall>s. score py x = Inr s \<longrightarrow> s = spec_score_with 2 py x))
   \<and> (map_of x ''display_size'' = None \<longrightarrow>
        score py x = score py (AList.update ''display_size'' (PInt 0) x))
   \<and> (\<not> truthy (get x ''cellular'' PNone) \<longrightarrow>
        score py x = score py (AList.update ''cellular'' (PBool False) x))
   \<and> (map_of x ''cellular'' = None \<longrightarrow> \<not> truthy (get x ''cellular'' PNone))
   \<and> (map_of x ''storage_options'' = None \<longrightarrow>
        score py x = score py (AList.update ''storage_options'' (PList []) x))
   \<and> ((map_of x ''chip'' = None \<or> (\<exists>c. map_of x ''chip'' = Some (PStr c)))
      \<and> (map_of x ''display_size'' = None \<or> (\<exists>n. map_of x ''display_size'' = Some (PInt n))
          \<or> (\<exists>r. map_of x ''display_size'' = Some (PFloat r)))
      \<and> (map_of x ''storage_options'' = None \<or> (\<exists>l. map_of x ''storage_options'' = Some (PList l)))
      \<longrightarrow> (\<exists>s. score py x = Inr s))
   \<and> score py [] = Inr (Finite 2)"
proof (intro conjI impI allI)
  assume m: "map_of x ''chip'' = None"
  show "score py x = score py (AList.update ''chip'' (PStr []) x)"
    by (rule score_default [symmetric]) (simp_all add: get_update, simp add: get_def m)
  fix s
  assume s: "score py x = Inr s"
  from m have c: "get x ''chip'' (PStr []) = PStr []" by (simp add: get_def)
  then have "chip_of x = []" by (simp add: chip_of_def)
  moreover have "chip_tier_score [] = 2" by (simp add: chip_tier_score_def upper_def)
  moreover from s have "s = spec_score py x" by (rule score_spec)
  ultimately show "s = spec_score_with 2 py x" by (simp add: spec_score_def)
next
  assume m: "map_of x ''display_size'' = None"
  show "score py x = score py (AList.update ''display_size'' (PInt 0) x)"
    by (rule score_default [symmetric]) (simp_all add: get_update, simp add: get_def m)
next
  assume m: "\<not> truthy (get x ''cellular'' PNone)"
  show "score py x = score py (AList.update ''cellular'' (PBool False) x)"
  proof -
    have tf: "\<not> truthy (PBool False)" by (simp add: truthy_def)
    show ?thesis by (rule score_default [symmetric]) (simp_all add: get_update tf m)
  qed
next
  assume "map_of x ''cellular'' = None"
  then show "\<not> truthy (get x ''cellular'' PNone)" by (simp add: get_def truthy_def)
next
  assume m: "map_of x ''storage_options'' = None"
  show "score py x = score py (AList.update ''storage_options'' (PList []) x)"
    by (rule score_default [symmetric]) (simp_all add: get_update, simp add: get_def m)
next
  assume h: "(map_of x ''chip'' = None \<or> (\<exists>c. map_of x ''chip'' = Some (PStr c)))
      \<and> (map_of x ''display_size'' = None \<or> (\<exists>n. map_of x ''display_size'' = Some (PInt n))
          \<or> (\<exists>r. map_of x ''display_size'' = Some (PFloat r)))
      \<and> (map_of x ''storage_options'' = None \<or> (\<exists>l. map_of x ''storage_options'' = Some (PList l)))"
  from h have "\<exists>c. get x ''chip'' (PStr []) = PStr c" by (auto simp: get_def)
  moreover from h have "\<exists>ds. py_float py (get x ''display_size'' (PInt 0)) = Inr ds"
    by (auto simp: get_def py_float_def)
  moreover from h have "\<exists>n. py_len (get x ''storage_options'' (PList [])) = Inr n"
    by (auto simp: get_def py_len_def)
  ultimately show "\<exists>s. score py x = Inr s" using score_total by blast
next
  show "score py [] = Inr (Finite 2)" by (rule score_empty)
qed

theorem score_missing_fields_witness:
  "map_of ([] :: doc) ''chip'' = None
   \<and> score no_builtins [] = score no_builtins (AList.update ''chip'' (PStr []) [])
   \<and> Finite 2 = spec_score_with 2 no_builtins []
   \<and> score no_builtins [] = score no_builtins (AList.update ''display_size'' (PInt 0) [])
   \<and> \<not> truthy (get [] ''cellular'' PNone)
   \<and> score no_builtins [] = score no_builtins (AList.update ''cellular'' (PBool False) [])
   \<and> score no_builtins [] = score no_builtins (AList.update ''storage_options'' (PList []) [])
   \<and> score no_builtins [] = Inr (Finite 2)"
proof -
  note T = score_missing_fields [where x = "[]" and py = no_builtins]
  note c2 = conjunct2
  have m: "map_of ([] :: doc) k = None" for k by simp
  have 7: "score no_builtins [] = Inr (Finite 2)"
    by (rule T [THEN c2, THEN c2, THEN c2, THEN c2, THEN c2, THEN c2])
  note T1 = T [THEN conjunct1, THEN mp, OF m]
  have 1: "score no_builtins [] = score no_builtins (AList.update ''chip'' (PStr []) [])"
    by (rule T1 [THEN conjunct1])
  have 2: "Finite 2 = spec_score_with 2 no_builtins []"
    by (rule T1 [THEN conjunct2, rule_format, OF 7])
  have 3: "score no_builtins [] = score no_builtins (AList.update ''display_size'' (PInt 0) [])"
    by (rule T [THEN c2, THEN conjunct1, THEN mp, OF m])
  have 4: "\<not> truthy (get [] ''cellular'' PNone)"
    by (rule T [THEN c2, THEN c2, THEN c2, THEN conjunct1, THEN mp, OF m])
  have 5: "score no_builtins [] = score no_builtins (AList.update ''cellular'' (PBool False) [])"
    by (rule T [THEN c2, THEN c2, THEN conjunct1, THEN mp, OF 4])
  have 6: "score no_builtins [] = score no_builtins (AList.update ''storage_options'' (PList []) [])"
    by (rule T [THEN c2, THEN c2, THEN c2, THEN c2, THEN conjunct1, THEN mp, OF m])
  from m 1 2 3 4 5 6 7 show ?thesis by (intro conjI)
qed

section \<open>Properties of the list handler\<close>

lemma rng_lookup:
  "map_of (rng lo hi) ''$gte'' = map_option PFloat lo"
  "map_of (rng lo hi) ''$lte'' = map_option PFloat hi"
  by (simp_all add: rng_def Let_def update_conv' split: option.splits)

lemma filter_dict_lookup:
  "map_of (filter_dict q c lo hi) ''name'' =
     (case q of None \<Rightarrow> None
      | Some s \<Rightarrow> if s \<noteq> [] then Some (PDict [(''$regex'', PStr s), (''$options'', PStr ''i'')]) else None)"
  "map_of (filter_dict q c lo hi) ''chip'' =
     (case c of None \<Rightarrow> None | Some s \<Rightarrow> if s \<noteq> [] then Some (PStr s) else None)"
  "map_of (filter_dict q c lo hi) ''display_size'' =
     (if lo \<noteq> None \<or> hi \<noteq> None then Some (PDict (rng lo hi)) else None)"
  by (simp_all add: filter_dict_def Let_def update_conv' split: option.splits)


text \<open>
  C9. An empty string for \<open>q\<close> or for \<open>chip\<close> builds the filter that the absent parameter
  builds, whereas a bound of 0 passes the validation and is put into the range
  constraint of \<open>display_size\<close>.
\<close>

theorem filter_dict_empty_string:
  "filter_dict (Some []) c lo hi = filter_dict None c lo hi
   \<and> filter_dict q (Some []) lo hi = filter_dict q None lo hi
   \<and> filter_dict (Some []) (Some []) None None = []
   \<and> ge0 (Some (Finite 0))
   \<and> map_of (filter_dict q c (Some (Finite 0)) hi) ''display_size'' = Some (PDict (rng (Some (Finite 0)) hi))
   \<and> map_of (rng (Some (Finite 0)) hi) ''$gte'' = Some (PFloat (Finite 0))
   \<and> map_of (filter_dict q c lo (Some (Finite 0))) ''display_size'' = Some (PDict (rng lo (Some (Finite 0))))
   \<and> map_of (rng lo (Some (Finite 0))) ''$lte'' = Some (PFloat (Finite 0))
   \<and> filter_dict None None (Some (Finite 0)) None = [(''display_size'', PDict [(''$gte'', PFloat (Finite 0))])]
   \<and> filter_dict None None None (Some (Finite 0)) = [(''display_size'', PDict [(''$lte'', PFloat (Finite 0))])]"
  by (simp add: filter_dict_lookup rng_lookup ge0_def) (simp add: filter_dict_def rng_def)

theorem filter_dict_empty_string_witness:
  "filter_dict (Some []) (Some ''M4'') (Some (Finite 0)) (Some (Finite 11))
     = filter_dict None (Some ''M4'') (Some (Finite 0)) (Some (Finite 11))
   \<and> filter_dict (Some ''pro'') (Some []) (Some (Finite 0)) (Some (Finite 11))
     = filter_dict (Some ''pro'') None (Some (Finite 0)) (Some (Finite 11))
   \<and> map_of (filter_dict (Some ''pro'') (Some ''M4'') (Some (Finite 0)) (Some (Finite 11))) ''display_size''
     = Some (PDict (rng (Some (Finite 0)) (Some (Finite 11))))
   \<and> map_of (rng (Some (Finite 0)) (Some (Finite 11))) ''$gte'' = Some (PFloat (Finite 0))"
proof -
  note T = filter_dict_empty_string [where q = "Some ''pro''" and c = "Some ''M4''"
      and lo = "Some (Finite 0)" and hi = "Some (Finite 11)"]
  note c2 = conjunct2
  from T [THEN conjunct1] T [THEN c2, THEN conjunct1]
    T [THEN c2, THEN c2, THEN c2, THEN c2, THEN conjunct1]
    T [THEN c2, THEN c2, THEN c2, THEN c2, THEN c2, THEN conjunct1]
  show ?thesis by (intro conjI)
qed

subsection \<open>Compiled filters\<close>



lemma update_absent: "k \<notin> fst ` set al \<Longrightarrow> AList.update k v al = al @ [(k, v)]"
  by (induction al) auto











subsection \<open>The name constraint\<close>

lemma not_meta_dot: "\<not> is_meta c \<Longrightarrow> c \<noteq> CHR ''.''"
  by (auto simp: is_meta_def)

lemma match_here_literal:
  "list_all (\<lambda>c. \<not> is_meta c) p \<Longrightarrow> match_here p s = prefix (upper p) (upper s)"
  by (induction p s rule: match_here.induct) (auto simp: upper_def dest: not_meta_dot)

lemma search_literal:
  assumes "list_all (\<lambda>c. \<not> is_meta c) p"
  shows "search p s = sublist (upper p) (upper s)"
proof (induction s)
  case Nil
  then show ?case by (simp add: match_here_literal [OF assms] upper_def)
next
  case (Cons a s)
  have "upper (a # s) = upper_char a # upper s" by (simp add: upper_def)
  then show ?case
    by (simp add: match_here_literal [OF assms] Cons sublist_Cons_right)
qed

lemma compile_regex_literal:
  "list_all (\<lambda>c. \<not> is_meta c) p \<Longrightarrow> compile_regex py p = Some (search p)"
  by (simp add: compile_regex_def list_all_iff)

lemma name_cond_literal:
  assumes "list_all (\<lambda>c. \<not> is_meta c) q"
  shows "\<exists>P. compile_cond py (PDict [(''$regex'', PStr q), (''$options'', PStr ''i'')]) = Some P
       \<and> (\<forall>x. P (map_of x ''name'') = name_contains q x)"
  by (auto simp: compile_cond_def compile_op_def compile_regex_literal [OF assms]
      name_contains_def search_literal [OF assms] split: option.splits pyval.splits)

lemma dot_matches:
  "doc_matches no_builtins (filter_dict (Some ''.'') None None None) [(''name'', PStr ''iPad'')]
     = Some True"
  by code_simp

lemma dot_not_contained: "\<not> name_contains ''.'' [(''name'', PStr ''iPad'')]"
  by code_simp

text \<open>
  C5, as the code has it. The name constraint of a non-empty \<open>q\<close> is a case-insensitive
  regular expression with the pattern \<open>q\<close>. When \<open>q\<close> has no character that is special
  in a pattern, the constraint holds of a record exactly when \<open>q\<close> occurs in its name as
  a substring, letter case ignored.
\<close>

theorem name_constraint_literal:
  "q \<noteq> [] \<longrightarrow>
     map_of (filter_dict (Some q) c lo hi) ''name''
       = Some (PDict [(''$regex'', PStr q), (''$options'', PStr ''i'')])
     \<and> (list_all (\<lambda>ch. \<not> is_meta ch) q \<longrightarrow>
          (\<exists>P. compile_cond py (PDict [(''$regex'', PStr q), (''$options'', PStr ''i'')]) = Some P
             \<and> (\<forall>x. P (map_of x ''name'') = name_contains q x))
          \<and> (\<forall>x. doc_matches py (filter_dict (Some q) None None None) x = Some (name_contains q x)))"
proof (intro impI conjI allI)
  assume q: "q \<noteq> []"
  then show "map_of (filter_dict (Some q) c lo hi) ''name''
       = Some (PDict [(''$regex'', PStr q), (''$options'', PStr ''i'')])"
    by (simp add: filter_dict_lookup)
  assume l: "list_all (\<lambda>ch. \<not> is_meta ch) q"
  from name_cond_literal [OF l, of py]
  obtain P where P: "compile_cond py (PDict [(''$regex'', PStr q), (''$options'', PStr ''i'')]) = Some P"
    and Pn: "\<forall>x. P (map_of x ''name'') = name_contains q x"
    by blast
  from P Pn show "\<exists>P. compile_cond py (PDict [(''$regex'', PStr q), (''$options'', PStr ''i'')]) = Some P
             \<and> (\<forall>x. P (map_of x ''name'') = name_contains q x)"
    by blast
  fix x
  from q have f: "filter_dict (Some q) None None None
      = [(''name'', PDict [(''$regex'', PStr q), (''$options'', PStr ''i'')])]"
    by (simp add: filter_dict_def)
  show "doc_matches py (filter_dict (Some q) None None None) x = Some (name_contains q x)"
    unfolding f by (simp add: doc_matches_def compile_filter_def P Pn)
qed

theorem name_constraint_literal_witness:
  "''pro'' \<noteq> [] \<and> list_all (\<lambda>ch. \<not> is_meta ch) ''pro''
   \<and> map_of (filter_dict (Some ''pro'') None None None) ''name''
       = Some (PDict [(''$regex'', PStr ''pro''), (''$options'', PStr ''i'')])
   \<and> doc_matches no_builtins (filter_dict (Some ''pro'') None None None)
        [(''name'', PStr ''iPad Pro 11'')] = Some True"
proof -
  have q: "''pro'' \<noteq> []" by simp
  have l: "list_all (\<lambda>ch. \<not> is_meta ch) ''pro''" by code_simp
  have n: "name_contains ''pro'' [(''name'', PStr ''iPad Pro 11'')]" by code_simp
  note T = name_constraint_literal [where q = "''pro''" and c = None and lo = None and hi = None
      and py = no_builtins, THEN mp, OF q]
  have 1: "map_of (filter_dict (Some ''pro'') None None None) ''name''
       = Some (PDict [(''$regex'', PStr ''pro''), (''$options'', PStr ''i'')])"
    by (rule T [THEN conjunct1])
  have "doc_matches no_builtins (filter_dict (Some ''pro'') None None None)
        [(''name'', PStr ''iPad Pro 11'')] = Some (name_contains ''pro'' [(''name'', PStr ''iPad Pro 11'')])"
    by (rule T [THEN conjunct2, THEN mp, OF l, THEN conjunct2, rule_format])
  with n have 2: "doc_matches no_builtins (filter_dict (Some ''pro'') None None None)
        [(''name'', PStr ''iPad Pro 11'')] = Some True" by simp
  from q l 1 2 show ?thesis by (intro conjI)
qed

text \<open>
  The claim C5 as it is written fails: the pattern of a single dot holds of the name
  \<open>iPad\<close>, in which no dot occurs.
\<close>

theorem name_constraint_counterexample:
  "doc_matches no_builtins (filter_dict (Some ''.'') None None None) [(''name'', PStr ''iPad'')]
     = Some True
   \<and> \<not> name_contains ''.'' [(''name'', PStr ''iPad'')]"
  using dot_matches dot_not_contained by (rule conjI)

section \<open>Properties of the seed handler\<close>

lemma delete_id_model_dump: "AList.delete ''_id'' (model_dump m) = model_dump m"
  by (simp add: model_dump_def)

lemma seed_loop_alive:
  assumes "alive d"
  shows "\<exists>d'. seed_loop items n d = (Inr (n + length items), d') \<and> alive d'
       \<and> map (AList.delete ''_id'') (ipad d') = map (AList.delete ''_id'') (ipad d) @ map model_dump items
       \<and> length (ipad d') = length (ipad d) + length items"
  using assms
proof (induction items arbitrary: n d)
  case Nil
  then show ?case by simp
next
  case (Cons item items)
  define d1 where "d1 = d\<lparr>ipad := ipad d @ [(''_id'', PObjectId (ObjectId (next_id d))) # model_dump item],
      next_id := next_id d + 1\<rparr>"
  from Cons.prems have c: "create_document d item = (Inr (oid_str (ObjectId (next_id d))), d1)"
    by (simp add: create_document_def Let_def d1_def)
  from Cons.prems have a1: "alive d1" by (simp add: d1_def)
  have i1: "ipad d1 = ipad d @ [(''_id'', PObjectId (ObjectId (next_id d))) # model_dump item]"
    by (simp add: d1_def)
  from Cons.IH [OF a1, of "n + 1"] obtain d' where
    d': "seed_loop items (n + 1) d1 = (Inr (n + 1 + length items), d')" "alive d'"
      "map (AList.delete ''_id'') (ipad d') = map (AList.delete ''_id'') (ipad d1) @ map model_dump items"
      "length (ipad d') = length (ipad d1) + length items"
    by blast
  have "seed_loop (item # items) n d = (Inr (n + length (item # items)), d')"
    using d'(1) by (simp add: c)
  moreover have "map (AList.delete ''_id'') (ipad d')
      = map (AList.delete ''_id'') (ipad d) @ map model_dump (item # items)"
    unfolding d'(3) i1 by (simp add: delete_id_model_dump)
  moreover have "length (ipad d') = length (ipad d) + length (item # items)"
    unfolding d'(4) i1 by simp
  ultimately show ?case using d'(2) by blast
qed

lemma length_demo: "length demo = 4"
  by (simp add: demo_def)

text \<open>
  C7. With the store configured and available: when the collection holds a record the
  seed handler reports 0 inserted and leaves the store as it is; when the collection is
  empty it reports 4 inserted, and the collection then holds four records, which are the
  four demo records, each with an identifier.
\<close>

theorem seed_ipads_idempotent:
  "alive d \<longrightarrow>
     (ipad d \<noteq> [] \<longrightarrow>
        seed_ipads (Some d)
          = (Inr \<lparr>inserted = 0, message = Some ''Catalog already has data''\<rparr>, Some d))
     \<and> (ipad d = [] \<longrightarrow>
          (\<exists>d'. seed_ipads (Some d) = (Inr \<lparr>inserted = 4, message = None\<rparr>, Some d')
             \<and> length (ipad d') = 4
             \<and> map (AList.delete ''_id'') (ipad d') = map model_dump demo
             \<and> ipad d' \<noteq> [] \<and> alive d'))"
proof (intro impI conjI)
  assume a: "alive d"
  {
    assume "ipad d \<noteq> []"
    with a show "seed_ipads (Some d)
          = (Inr \<lparr>inserted = 0, message = Some ''Catalog already has data''\<rparr>, Some d)"
      by (simp add: seed_ipads_def count_documents_def)
  }
  assume e: "ipad d = []"
  from seed_loop_alive [OF a, of demo 0] obtain d' where
    d': "seed_loop demo 0 d = (Inr (0 + length demo), d')" "alive d'"
      "map (AList.delete ''_id'') (ipad d') = map (AList.delete ''_id'') (ipad d) @ map model_dump demo"
      "length (ipad d') = length (ipad d) + length demo"
    by blast
  from a e d'(1) have "seed_ipads (Some d) = (Inr \<lparr>inserted = 4, message = None\<rparr>, Some d')"
    by (simp add: seed_ipads_def count_documents_def length_demo)
  moreover from d'(4) e have l: "length (ipad d') = 4" by (simp add: length_demo)
  moreover from d'(3) e have "map (AList.delete ''_id'') (ipad d') = map model_dump demo" by simp
  moreover from l have "ipad d' \<noteq> []" by auto
  ultimately show "\<exists>d'. seed_ipads (Some d) = (Inr \<lparr>inserted = 4, message = None\<rparr>, Some d')
             \<and> length (ipad d') = 4
             \<and> map (AList.delete ''_id'') (ipad d') = map model_dump demo
             \<and> ipad d' \<noteq> [] \<and> alive d'"
    using d'(2) by blast
qed


theorem seed_ipads_idempotent_witness:
  "alive example_db \<and> ipad example_db \<noteq> []
   \<and> seed_ipads (Some example_db)
       = (Inr \<lparr>inserted = 0, message = Some ''Catalog already has data''\<rparr>, Some example_db)
   \<and> alive \<lparr>alive = True, ipad = [], next_id = 0\<rparr>
   \<and> ipad \<lparr>alive = True, ipad = [], next_id = 0\<rparr> = []
   \<and> (\<exists>d'. seed_ipads (Some \<lparr>alive = True, ipad = [], next_id = 0\<rparr>)
              = (Inr \<lparr>inserted = 4, message = None\<rparr>, Some d')
           \<and> length (ipad d') = 4
           \<and> map (AList.delete ''_id'') (ipad d') = map model_dump demo)"
proof -
  let ?e = "\<lparr>alive = True, ipad = [], next_id = 0\<rparr>"
  have a: "alive example_db" by (simp add: example_db_def)
  have n: "ipad example_db \<noteq> []" by (simp add: example_db_def)
  have a': "alive ?e" by simp
  have e: "ipad ?e = []" by simp
  have 1: "seed_ipads (Some example_db)
       = (Inr \<lparr>inserted = 0, message = Some ''Catalog already has data''\<rparr>, Some example_db)"
    by (rule seed_ipads_idempotent [of example_db, THEN mp, OF a, THEN conjunct1, THEN mp, OF n])
  from seed_ipads_idempotent [of ?e, THEN mp, OF a', THEN conjunct2, THEN mp, OF e]
  obtain d' where d: "seed_ipads (Some ?e) = (Inr \<lparr>inserted = 4, message = None\<rparr>, Some d')"
      "length (ipad d') = 4" "map (AList.delete ''_id'') (ipad d') = map model_dump demo"
    by (elim exE conjE)
  from d have 2: "\<exists>d'. seed_ipads (Some ?e) = (Inr \<lparr>inserted = 4, message = None\<rparr>, Some d')
           \<and> length (ipad d') = 4
           \<and> map (AList.delete ''_id'') (ipad d') = map model_dump demo"
    by (intro exI [of _ d'] conjI)
  from a n 1 a' e 2 show ?thesis by (intro conjI)
qed

section \<open>The error responses of the compare handler\<close>

lemma fetch_both_alive:
  assumes "alive d"
  shows "fetch_both d p =
     (if oid_is_valid (req_a p) \<and> oid_is_valid (req_b p)
      then (case (ObjectId_of_str (req_a p), ObjectId_of_str (req_b p)) of
              (Inr oa, Inr ob) \<Rightarrow>
                 Inr (List.find (\<lambda>x. map_of x ''_id'' = Some (PObjectId oa)) (ipad d),
                      List.find (\<lambda>x. map_of x ''_id'' = Some (PObjectId ob)) (ipad d))
            | _ \<Rightarrow> Inl InvalidId)
      else Inl InvalidId)"
  using assms by (simp add: fetch_both_def ObjectId_of_str_def find_one_def)

text \<open>
  An identifier that the constructor refuses gives the client error 400, whether it is
  the first or, after a well-formed first, the second.
\<close>

lemma compare_malformed:
  assumes "alive d"
    and "(\<not> oid_is_valid (req_a p) \<and> \<not> lenient (req_a p))
       \<or> (oid_is_valid (req_a p) \<and> \<not> oid_is_valid (req_b p) \<and> \<not> lenient (req_b p))"
  shows "compare_ipads py (Some d) p = Inl (HTTPException 400 ''Invalid id format'')"
  using assms by (auto simp add: compare_ipads_def fetch_both_alive)

lemma lenient_example: "lenient ''00 00 00 00 00 00 00 00 ''"
  by code_simp

lemma find_falsy:
  "falsy_doc (List.find (\<lambda>x. map_of x ''_id'' = Some v) xs)
     = (List.find (\<lambda>x. map_of x ''_id'' = Some v) xs = None)"
proof (cases "List.find (\<lambda>x. map_of x ''_id'' = Some v) xs")
  case None
  then show ?thesis by (simp add: falsy_doc_def)
next
  case (Some x)
  then have "map_of x ''_id'' = Some v" by (auto simp add: find_Some_iff)
  then have "x \<noteq> []" by auto
  with Some show ?thesis by (simp add: falsy_doc_def)
qed

lemma compare_missing:
  assumes "alive d" and "ObjectId_of_str (req_a p) = Inr oa" and "ObjectId_of_str (req_b p) = Inr ob"
    and "find_one d oa = Inr None \<or> find_one d ob = Inr None"
  shows "compare_ipads py (Some d) p = Inl (HTTPException 404 ''One or both models not found'')"
  using assms
  by (auto simp add: compare_ipads_def fetch_both_def find_one_def falsy_doc_def)

text \<open>
  C4, on the code. With the store configured but unavailable and a well-formed first
  identifier, the lookup fails inside the guarded block, and the handler answers with
  the client error 400 ``Invalid id format'', not with a store-unavailable response.
\<close>

theorem compare_store_unavailable:
  "\<not> alive d \<longrightarrow> oid_is_valid (req_a payload) \<longrightarrow>
     compare_ipads py (Some d) payload = Inl (HTTPException 400 ''Invalid id format'')"
  by (simp add: compare_ipads_def fetch_both_def ObjectId_of_str_def find_one_def)

theorem compare_store_unavailable_witness:
  "\<not> alive (example_db\<lparr>alive := False\<rparr>) \<and> oid_is_valid (req_a example_request)
   \<and> oid_is_valid (req_b example_request)
   \<and> compare_ipads no_builtins (Some (example_db\<lparr>alive := False\<rparr>)) example_request
       = Inl (HTTPException 400 ''Invalid id format'')"
proof -
  have a: "\<not> alive (example_db\<lparr>alive := False\<rparr>)" by simp
  have v: "oid_is_valid (req_a example_request)" by (simp add: example_request_def) code_simp
  have w: "oid_is_valid (req_b example_request)" by (simp add: example_request_def) code_simp
  have 1: "compare_ipads no_builtins (Some (example_db\<lparr>alive := False\<rparr>)) example_request
       = Inl (HTTPException 400 ''Invalid id format'')"
    by (rule compare_store_unavailable [of "example_db\<lparr>alive := False\<rparr>" example_request no_builtins,
          THEN mp, OF a, THEN mp, OF v])
  from a v w 1 show ?thesis by (intro conjI)
qed

end
